theory Spec2Isabelle
  imports Complex_Main "HOL-Library.List_Lexorder" "HOL-Library.Char_ord"
begin

section \<open>Python strings\<close>

text \<open>
  A Python \<^verbatim>\<open>str\<close> is modelled as a \<^typ>\<open>string\<close>, a list of 8-bit characters; the
  model covers ASCII text. \<^verbatim>\<open>str.lower()\<close> and \<^verbatim>\<open>str.upper()\<close> change the
  letters \<^verbatim>\<open>A-Z\<close> and \<^verbatim>\<open>a-z\<close> and leave every other character alone.
\<close>

definition lower_char :: "char \<Rightarrow> char" where
  "lower_char c =
     (case map_of (zip ''ABCDEFGHIJKLMNOPQRSTUVWXYZ'' ''abcdefghijklmnopqrstuvwxyz'') c of
        Some l \<Rightarrow> l
      | None \<Rightarrow> c)"

definition upper_char :: "char \<Rightarrow> char" where
  "upper_char c =
     (case map_of (zip ''abcdefghijklmnopqrstuvwxyz'' ''ABCDEFGHIJKLMNOPQRSTUVWXYZ'') c of
        Some u \<Rightarrow> u
      | None \<Rightarrow> c)"

definition py_lower :: "string \<Rightarrow> string" where
  "py_lower s = map lower_char s"

definition py_upper :: "string \<Rightarrow> string" where
  "py_upper s = map upper_char s"

text \<open>\<^verbatim>\<open>s.startswith(p)\<close> and \<^verbatim>\<open>s.endswith(p)\<close>.\<close>

definition startswith :: "string \<Rightarrow> string \<Rightarrow> bool" where
  "startswith s p = (take (length p) s = p)"

definition endswith :: "string \<Rightarrow> string \<Rightarrow> bool" where
  "endswith s p = (length p \<le> length s \<and> drop (length s - length p) s = p)"

text \<open>The exceptions that the modelled code can raise.\<close>

datatype py_exception =
    UnboundLocalError string
  | KeyError string
  | IndexError string
  | Exception string
  | BaseException string

text \<open>\<^verbatim>\<open>except Exception\<close> catches everything but a bare \<^verbatim>\<open>BaseException\<close> such as
  \<^verbatim>\<open>KeyboardInterrupt\<close> or \<^verbatim>\<open>SystemExit\<close>.\<close>

fun is_Exception :: "py_exception \<Rightarrow> bool" where
  "is_Exception (BaseException _) = False"
| "is_Exception _ = True"


text \<open>\<^verbatim>\<open>p in s\<close> for strings: \<^verbatim>\<open>p\<close> occurs in \<^verbatim>\<open>s\<close>.\<close>

fun py_contains :: "string \<Rightarrow> string \<Rightarrow> bool" where
  "py_contains [] p = (p = [])"
| "py_contains (c # s) p = (startswith (c # s) p \<or> py_contains s p)"

text \<open>\<^verbatim>\<open>xs.index(x)\<close>; \<^verbatim>\<open>None\<close> stands for the \<^verbatim>\<open>ValueError\<close>.\<close>

fun list_index :: "'a list \<Rightarrow> 'a \<Rightarrow> nat option" where
  "list_index [] x = None"
| "list_index (y # ys) x = (if y = x then Some 0 else map_option Suc (list_index ys x))"

text \<open>
  \<^verbatim>\<open>int(s)\<close> for a string: surrounding whitespace is dropped, a sign may come first,
  then decimal digits, where single underscores may separate digits. \<^verbatim>\<open>None\<close> stands
  for the \<^verbatim>\<open>ValueError\<close>.
\<close>

definition py_isspace :: "char \<Rightarrow> bool" where
  "py_isspace c = (c \<in> set [CHR '' '', CHR 0x09, CHR 0x0A, CHR 0x0B, CHR 0x0C, CHR 0x0D,
                            CHR 0x1C, CHR 0x1D, CHR 0x1E, CHR 0x1F])"

definition py_strip :: "string \<Rightarrow> string" where
  "py_strip s = rev (dropWhile py_isspace (rev (dropWhile py_isspace s)))"

definition digit_value :: "char \<Rightarrow> nat option" where
  "digit_value c = map_of (zip ''0123456789'' [0, 1, 2, 3, 4, 5, 6, 7, 8, 9]) c"

definition py_isdigit :: "char \<Rightarrow> bool" where
  "py_isdigit c = (digit_value c \<noteq> None)"

fun digits_ok :: "string \<Rightarrow> bool" where
  "digits_ok [] = False"
| "digits_ok [c] = py_isdigit c"
| "digits_ok (c # d # rest) =
     (py_isdigit c \<and> (if d = CHR ''_'' then digits_ok rest else digits_ok (d # rest)))"

definition decimal_value :: "string \<Rightarrow> nat" where
  "decimal_value s = foldl (\<lambda>acc c. 10 * acc + the (digit_value c)) 0 (filter py_isdigit s)"

definition py_int :: "string \<Rightarrow> int option" where
  "py_int s =
     (let t = py_strip s;
          negative = (t \<noteq> [] \<and> hd t = CHR ''-'');
          body = (if t \<noteq> [] \<and> (hd t = CHR ''-'' \<or> hd t = CHR ''+'') then tl t else t)
      in if digits_ok body
         then Some (if negative then - int (decimal_value body) else int (decimal_value body))
         else None)"


text \<open>\<^verbatim>\<open>str(n)\<close> for a natural number.\<close>

definition digit_char :: "nat \<Rightarrow> char" where
  "digit_char d = ''0123456789'' ! d"

fun str_nat :: "nat \<Rightarrow> string" where
  "str_nat n = (if n < 10 then [digit_char n] else str_nat (n div 10) @ [digit_char (n mod 10)])"

declare str_nat.simps [simp del]

section \<open>DCC transfer table\<close>

text \<open>
  The transfer entities of \<^verbatim>\<open>pyrc_core/dcc/dcc_manager.py\<close>. Only the attributes that
  the manager reads are kept. \<^verbatim>\<open>DCCManager.transfers\<close> is a Python dict from
  transfer id to transfer object; it is modelled as an association list in insertion
  order, the order in which \<^verbatim>\<open>.items()\<close> and \<^verbatim>\<open>.values()\<close> iterate.
  Times are the readings of \<^verbatim>\<open>time.monotonic()\<close>, taken as real numbers.
\<close>

datatype DCCTransferStatus =
  QUEUED | NEGOTIATING | CONNECTING | TRANSFERRING | COMPLETED | FAILED | CANCELLED | TIMED_OUT

datatype DCCTransferType = SEND | RECEIVE

record DCCTransfer =
  transfer_id :: string
  transfer_type :: DCCTransferType
  peer_nick :: string
  original_filename :: string
  local_filepath :: string
  filesize :: int
  bytes_transferred :: int
  status :: DCCTransferStatus
  end_time :: "real option"

type_synonym transfer_table = "(string \<times> DCCTransfer) list"

text \<open>The entries of \<^verbatim>\<open>dcc_config\<close> that the modelled methods consult.\<close>

record dcc_config =
  enabled :: bool
  resume_enabled :: bool
  cleanup_enabled :: bool
  transfer_max_age_seconds :: real
  passive_mode_token_timeout :: real
  port_range_start :: int
  port_range_end :: int

subsection \<open>\<^verbatim>\<open>_cleanup_finished_transfers\<close>\<close>

text \<open>
  The test of the first loop:
  \<^verbatim>\<open>transfer.status in [COMPLETED, FAILED, CANCELLED, TIMED_OUT]\<close> and then
  \<^verbatim>\<open>transfer.end_time and (now - transfer.end_time > max_age_seconds)\<close>.
  The left operand of \<^verbatim>\<open>and\<close> is the truth value of \<^verbatim>\<open>end_time\<close>: false for
  \<^verbatim>\<open>None\<close> and for \<^verbatim>\<open>0.0\<close>.
\<close>

definition marked_for_cleanup :: "real \<Rightarrow> real \<Rightarrow> DCCTransfer \<Rightarrow> bool" where
  "marked_for_cleanup now max_age t =
     (status t \<in> set [COMPLETED, FAILED, CANCELLED, TIMED_OUT] \<and>
      (case end_time t of
         None \<Rightarrow> False
       | Some e \<Rightarrow> e \<noteq> 0 \<and> now - e > max_age))"

text \<open>First loop: collect \<^verbatim>\<open>transfer_ids_to_remove\<close>.\<close>

fun collect_ids_to_remove :: "real \<Rightarrow> real \<Rightarrow> transfer_table \<Rightarrow> string list" where
  "collect_ids_to_remove now max_age [] = []"
| "collect_ids_to_remove now max_age ((tid, t) # rest) =
     (if marked_for_cleanup now max_age t
      then tid # collect_ids_to_remove now max_age rest
      else collect_ids_to_remove now max_age rest)"

text \<open>\<^verbatim>\<open>del self.transfers[k]\<close>.\<close>

definition dict_del :: "string \<Rightarrow> transfer_table \<Rightarrow> transfer_table" where
  "dict_del k d = filter (\<lambda>kv. fst kv \<noteq> k) d"

text \<open>Second loop: delete every collected id that is still a key, counting the deletions.\<close>

fun remove_collected :: "string list \<Rightarrow> transfer_table \<Rightarrow> nat \<Rightarrow> transfer_table \<times> nat" where
  "remove_collected [] d cleaned_count = (d, cleaned_count)"
| "remove_collected (k # ks) d cleaned_count =
     (if k \<in> fst ` set d
      then remove_collected ks (dict_del k d) (cleaned_count + 1)
      else remove_collected ks d cleaned_count)"

text \<open>
  The whole method: the new table and \<^verbatim>\<open>cleaned_count\<close> (which decides whether the
  "Cleaned up" message is shown). With cleanup disabled the method returns at once.
\<close>

definition cleanup_finished_transfers :: "dcc_config \<Rightarrow> real \<Rightarrow> transfer_table \<Rightarrow> transfer_table \<times> nat" where
  "cleanup_finished_transfers cfg now d =
     (if \<not> cleanup_enabled cfg then (d, 0)
      else remove_collected
             (collect_ids_to_remove now (transfer_max_age_seconds cfg) d) d 0)"

text \<open>The eligibility condition in the words of the specification: terminal status,
  \<^verbatim>\<open>end_time\<close> set, and older than the maximal age.\<close>

definition spec_eligible_for_cleanup :: "real \<Rightarrow> real \<Rightarrow> DCCTransfer \<Rightarrow> bool" where
  "spec_eligible_for_cleanup now max_age t =
     (status t \<in> {COMPLETED, FAILED, CANCELLED, TIMED_OUT} \<and>
      (\<exists>e. end_time t = Some e \<and> now - e > max_age))"

subsection \<open>\<^verbatim>\<open>attempt_user_resume\<close>\<close>

text \<open>
  The method returns a dict. Every \<^verbatim>\<open>{"success": False, "error": ...}\<close> it builds itself
  is a value of \<open>resume_error\<close>; on its last line it returns whatever
  \<^verbatim>\<open>send_manager._execute_send_operation\<close> returns for the keyword arguments collected
  in a \<open>send_request\<close>. That callee is not part of the modelled sources, so the
  model returns the request it is called with.
\<close>

datatype resume_error =
    DCC_is_disabled
  | DCC_resume_is_disabled
  | Ambiguous_transfer_ID_prefix string
  | Ambiguous_filename string
  | No_SEND_transfer_found string
  | Not_in_a_failed_or_cancelled_state string DCCTransferStatus
  | No_partial_progress string

record send_request =
  req_peer_nick :: string
  req_local_filepath :: string
  req_original_filename :: string
  req_filesize :: int
  req_passive :: bool

text \<open>The two list-building loops. \<^verbatim>\<open>isinstance(transfer, DCCSendTransfer)\<close> is the test
  that the transfer is an outgoing SEND.\<close>

definition possible_matches_by_id :: "transfer_table \<Rightarrow> string \<Rightarrow> DCCTransfer list" where
  "possible_matches_by_id d identifier =
     map snd (filter (\<lambda>kv. startswith (fst kv) identifier \<and> transfer_type (snd kv) = SEND) d)"

definition possible_matches_by_filename :: "transfer_table \<Rightarrow> string \<Rightarrow> DCCTransfer list" where
  "possible_matches_by_filename d identifier =
     filter (\<lambda>t. transfer_type t = SEND \<and>
                  py_lower (original_filename t) = py_lower identifier) (map snd d)"

text \<open>The checks made on the transfer that was found, and the final call.\<close>

definition resume_found_transfer :: "DCCTransfer \<Rightarrow> resume_error + send_request" where
  "resume_found_transfer t =
     (if status t \<notin> set [FAILED, CANCELLED, TIMED_OUT]
      then Inl (Not_in_a_failed_or_cancelled_state (original_filename t) (status t))
      else if \<not> (bytes_transferred t > 0 \<and> bytes_transferred t < filesize t)
      then Inl (No_partial_progress (original_filename t))
      else Inr \<lparr> req_peer_nick = peer_nick t,
                 req_local_filepath = local_filepath t,
                 req_original_filename = original_filename t,
                 req_filesize = filesize t,
                 req_passive = False \<rparr>)"

definition attempt_user_resume :: "dcc_config \<Rightarrow> transfer_table \<Rightarrow> string \<Rightarrow> resume_error + send_request" where
  "attempt_user_resume cfg d identifier =
     (if \<not> enabled cfg then Inl DCC_is_disabled
      else if \<not> resume_enabled cfg then Inl DCC_resume_is_disabled
      else
        (case possible_matches_by_id d identifier of
           [t] \<Rightarrow> resume_found_transfer t
         | _ # _ # _ \<Rightarrow> Inl (Ambiguous_transfer_ID_prefix identifier)
         | [] \<Rightarrow>
            (case possible_matches_by_filename d identifier of
               [t] \<Rightarrow> resume_found_transfer t
             | _ # _ # _ \<Rightarrow> Inl (Ambiguous_filename identifier)
             | [] \<Rightarrow> Inl (No_SEND_transfer_found identifier))))"

text \<open>
  The conditions in the words of the specification. The identifier selects a transfer
  when exactly one outgoing SEND has an id starting with it; failing any such id, when
  exactly one outgoing SEND has that filename up to case. More than one match in either
  lookup selects nothing.
\<close>

definition spec_id_prefix_matches :: "transfer_table \<Rightarrow> string \<Rightarrow> (string \<times> DCCTransfer) list" where
  "spec_id_prefix_matches d identifier =
     [(tid, t) \<leftarrow> d. transfer_type t = SEND \<and> startswith tid identifier]"

definition spec_filename_matches :: "transfer_table \<Rightarrow> string \<Rightarrow> (string \<times> DCCTransfer) list" where
  "spec_filename_matches d identifier =
     [(tid, t) \<leftarrow> d. transfer_type t = SEND \<and> py_lower (original_filename t) = py_lower identifier]"

definition spec_selected_transfer :: "transfer_table \<Rightarrow> string \<Rightarrow> DCCTransfer option" where
  "spec_selected_transfer d identifier =
     (let by_id = spec_id_prefix_matches d identifier;
          by_name = spec_filename_matches d identifier
      in if length by_id = 1 then Some (snd (hd by_id))
         else if length by_id > 1 then None
         else if length by_name = 1 then Some (snd (hd by_name))
         else None)"

definition spec_resumable :: "DCCTransfer \<Rightarrow> bool" where
  "spec_resumable t =
     (status t \<in> {FAILED, CANCELLED, TIMED_OUT} \<and>
      0 < bytes_transferred t \<and> bytes_transferred t < filesize t)"

definition request_for :: "DCCTransfer \<Rightarrow> send_request" where
  "request_for t =
     \<lparr> req_peer_nick = peer_nick t, req_local_filepath = local_filepath t,
       req_original_filename = original_filename t, req_filesize = filesize t,
       req_passive = False \<rparr>"

subsection \<open>\<^verbatim>\<open>_get_listening_socket\<close>\<close>

text \<open>
  What one pass through the \<^verbatim>\<open>try\<close> block does for a port is decided by the operating
  system; the model takes it as a function from ports to outcomes. \<open>Bound\<close>: the
  socket was created, bound and is listening. \<open>Addr_in_use\<close>: \<^verbatim>\<open>socket.error\<close> with
  errno 98. \<open>Other_socket_error\<close>: any other \<^verbatim>\<open>socket.error\<close> from \<^verbatim>\<open>bind\<close> or
  \<^verbatim>\<open>listen\<close>. \<open>Unexpected_error\<close>: another \<^verbatim>\<open>Exception\<close> from them.
  \<open>Socket_not_created\<close>: \<^verbatim>\<open>socket.socket(...)\<close> itself raised, so that \<^verbatim>\<open>s\<close> was not
  assigned in this pass.
\<close>

datatype bind_outcome =
  Bound | Addr_in_use | Other_socket_error | Unexpected_error | Socket_not_created

text \<open>
  The \<^verbatim>\<open>for port in ports_to_try\<close> loop. The flag tells whether the local variable
  \<^verbatim>\<open>s\<close> is bound: both handlers read it (\<^verbatim>\<open>if s: s.close()\<close>), which raises
  \<^verbatim>\<open>UnboundLocalError\<close> out of the handler when no earlier pass has assigned it.
  The result is the port of the returned pair, or \<^verbatim>\<open>None\<close>.
\<close>

fun try_ports :: "(int \<Rightarrow> bind_outcome) \<Rightarrow> bool \<Rightarrow> int list \<Rightarrow> py_exception + int option" where
  "try_ports bind s_bound [] = Inr None"
| "try_ports bind s_bound (port # rest) =
     (case bind port of
        Bound \<Rightarrow> Inr (Some port)
      | Socket_not_created \<Rightarrow>
          (if s_bound then try_ports bind s_bound rest else Inl (UnboundLocalError ''s''))
      | _ \<Rightarrow> try_ports bind True rest)"

definition get_listening_socket :: "dcc_config \<Rightarrow> (int \<Rightarrow> bind_outcome) \<Rightarrow> py_exception + int option" where
  "get_listening_socket cfg bind =
     (let (port_start, port_end) =
            (if port_range_start cfg > port_range_end cfg then (1024, 65535)
             else (port_range_start cfg, port_range_end cfg))
      in try_ports bind False [port_start..port_end])"

subsection \<open>Passive offers: \<^verbatim>\<open>accept_passive_offer_by_token\<close>\<close>

text \<open>
  A stored passive offer, with the keys that \<^verbatim>\<open>accept_passive_offer_by_token\<close> reads
  from \<^verbatim>\<open>pending_offer_details\<close> and the time at which the offer was received.
\<close>

record PassiveOffer =
  offer_nick :: string
  offer_filename :: string
  offer_filesize :: int
  offer_ip_str :: "string option"
  offer_timestamp :: real

type_synonym offer_table = "string \<rightharpoonup> PassiveOffer"

text \<open>
  Modelled from the spec: \<^verbatim>\<open>DCCPassiveOfferManager\<close> (\<^verbatim>\<open>get_offer\<close>,
  \<^verbatim>\<open>remove_offer\<close>) is not among the sources. The specification describes a
  token-indexed table of offers with expiration \<^verbatim>\<open>passive_mode_token_timeout\<close>:
  \<open>get_offer\<close> finds the offer stored under the token unless it has expired, and
  \<open>remove_offer\<close> deletes the entry and tells whether there was one.
\<close>

definition get_offer :: "dcc_config \<Rightarrow> real \<Rightarrow> offer_table \<Rightarrow> string \<Rightarrow> PassiveOffer option" where
  "get_offer cfg now offers token =
     (case offers token of
        None \<Rightarrow> None
      | Some details \<Rightarrow>
          (if now - offer_timestamp details > passive_mode_token_timeout cfg then None
           else Some details))"

definition remove_offer :: "offer_table \<Rightarrow> string \<Rightarrow> offer_table \<times> bool" where
  "remove_offer offers token = (offers(token := None), offers token \<noteq> None)"

text \<open>
  What \<^verbatim>\<open>initiate_passive_receive\<close> obtains from outside the modelled sources:
  the verdict of \<^verbatim>\<open>validate_download_path\<close> (an error text or the safe path), the
  outcome of binding each port, the local address, the formatted CTCP ACCEPT message
  (or \<^verbatim>\<open>None\<close>), a fresh transfer id and the clock.
\<close>

record dcc_environment =
  validate_download_path :: "string \<Rightarrow> int \<Rightarrow> string + string"
  bind_port :: "int \<Rightarrow> bind_outcome"
  local_ip_for_ctcp :: string
  format_dcc_accept_ctcp :: "string \<Rightarrow> string \<Rightarrow> int \<Rightarrow> int \<Rightarrow> string \<Rightarrow> string option"
  generate_transfer_id :: string
  monotonic_now :: real

text \<open>The keyword arguments \<^verbatim>\<open>recv_transfer_args\<close> of the new \<^verbatim>\<open>DCCReceiveTransfer\<close>;
  the listening socket is represented by its port.\<close>

record recv_transfer_args =
  arg_transfer_id :: string
  arg_peer_nick :: string
  arg_filename :: string
  arg_filesize :: int
  arg_local_filepath :: string
  arg_listening_port :: int
  arg_peer_ip :: "string option"

datatype passive_failure =
    Failure_DCC_is_disabled
  | Failure_validation string
  | Failure_no_listening_socket
  | Failure_format_accept
  | Failure_offer_not_found string

text \<open>
  The outcomes of the call: an exception leaves the method, it returns a
  \<^verbatim>\<open>success: False\<close> dict, or it registers the transfer built from the arguments,
  sends the CTCP message to the peer and returns \<^verbatim>\<open>success: True\<close>.
\<close>

datatype passive_receive_result =
    Raises py_exception
  | Passive_failure passive_failure
  | Passive_started recv_transfer_args string string

definition initiate_passive_receive ::
  "dcc_config \<Rightarrow> dcc_environment \<Rightarrow> string \<Rightarrow> string \<Rightarrow> int \<Rightarrow> string \<Rightarrow> string option
     \<Rightarrow> passive_receive_result" where
  "initiate_passive_receive cfg env peer offered_filename offered_filesize offer_token peer_ip_str_from_offer =
     (if \<not> enabled cfg then Passive_failure Failure_DCC_is_disabled
      else
        (case validate_download_path env offered_filename offered_filesize of
           Inl err \<Rightarrow> Passive_failure (Failure_validation err)
         | Inr safe_local_path \<Rightarrow>
            (case get_listening_socket cfg (bind_port env) of
               Inl exn \<Rightarrow> Raises exn
             | Inr None \<Rightarrow> Passive_failure Failure_no_listening_socket
             | Inr (Some local_listening_port) \<Rightarrow>
                (case format_dcc_accept_ctcp env offered_filename (local_ip_for_ctcp env)
                        local_listening_port 0 offer_token of
                   None \<Rightarrow> Passive_failure Failure_format_accept
                 | Some ctcp_accept_message \<Rightarrow>
                     Passive_started
                       \<lparr> arg_transfer_id = generate_transfer_id env,
                         arg_peer_nick = peer,
                         arg_filename = offered_filename,
                         arg_filesize = offered_filesize,
                         arg_local_filepath = safe_local_path,
                         arg_listening_port = local_listening_port,
                         arg_peer_ip = peer_ip_str_from_offer \<rparr>
                       peer ctcp_accept_message))))"

text \<open>
  \<^verbatim>\<open>accept_passive_offer_by_token\<close>: the result, the offer table afterwards, and whether
  the filename-mismatch warning was logged (the only use of the filename given by the
  user).
\<close>

definition accept_passive_offer_by_token ::
  "dcc_config \<Rightarrow> dcc_environment \<Rightarrow> offer_table \<Rightarrow> string \<Rightarrow> string \<Rightarrow> string
     \<Rightarrow> passive_receive_result \<times> offer_table \<times> bool" where
  "accept_passive_offer_by_token cfg env offers calling_nick_for_logging offered_filename_by_user offer_token =
     (case get_offer cfg (monotonic_now env) offers offer_token of
        None \<Rightarrow> (Passive_failure (Failure_offer_not_found offer_token), offers, False)
      | Some pending_offer_details \<Rightarrow>
          (let mismatch_logged =
                 (py_lower offered_filename_by_user \<noteq> py_lower (offer_filename pending_offer_details));
               (offers', removed) = remove_offer offers offer_token
           in (initiate_passive_receive cfg env
                 (offer_nick pending_offer_details)
                 (offer_filename pending_offer_details)
                 (offer_filesize pending_offer_details)
                 offer_token
                 (offer_ip_str pending_offer_details),
               offers', mismatch_logged)))"

section \<open>Inbound messages: \<^verbatim>\<open>IRCClient_Logic.handle_server_message\<close>\<close>

text \<open>
  The attributes of a parsed \<^verbatim>\<open>IRCMessage\<close> that the method reads. The parser
  \<^verbatim>\<open>IRCMessage.parse\<close> and the DCC parser \<^verbatim>\<open>parse_dcc_ctcp\<close> are not among the modelled
  sources; both are parameters, and \<^verbatim>\<open>None\<close> is their falsy result.
\<close>

record IRCMessage =
  command :: string
  trailing :: "string option"
  source_nick :: "string option"
  prefix :: "string option"

text \<open>What \<^verbatim>\<open>DCCManager.handle_incoming_dcc_ctcp\<close> does with a payload: it ignores it when
  DCC is disabled, reports a malformed request, or delegates the parsed command to the
  CTCP handler's \<^verbatim>\<open>process_ctcp\<close>.\<close>

datatype 'p dcc_ctcp_outcome =
    Ignored_DCC_disabled
  | Malformed_DCC_request string
  | Delegated_to_ctcp_handler string string 'p

definition handle_incoming_dcc_ctcp ::
  "dcc_config \<Rightarrow> (string \<Rightarrow> 'p option) \<Rightarrow> string \<Rightarrow> string \<Rightarrow> string \<Rightarrow> 'p dcc_ctcp_outcome" where
  "handle_incoming_dcc_ctcp cfg parse_dcc_ctcp nick userhost ctcp_payload =
     (if \<not> enabled cfg then Ignored_DCC_disabled
      else
        (case parse_dcc_ctcp ctcp_payload of
           None \<Rightarrow> Malformed_DCC_request nick
         | Some parsed_dcc \<Rightarrow> Delegated_to_ctcp_handler nick userhost parsed_dcc))"

text \<open>
  Where a line goes: it cannot be parsed and is reported as such; it is passed to
  \<^verbatim>\<open>irc_protocol.handle_server_message\<close>, the message router; or it is passed to the DCC
  manager and the method returns. \<^verbatim>\<open>self.dcc_manager\<close> is an object or \<^verbatim>\<open>None\<close>; the
  model keeps its configuration.
\<close>

datatype 'p message_route =
    Unparsed_reported
  | Passed_to_router string
  | Passed_to_dcc_manager "'p dcc_ctcp_outcome"

definition ctcp_delimiter :: string where
  "ctcp_delimiter = [CHR 0x01]"

text \<open>\<^verbatim>\<open>message_content[1:-1]\<close>.\<close>

definition ctcp_payload_of :: "string \<Rightarrow> string" where
  "ctcp_payload_of message_content = butlast (drop 1 message_content)"

definition handle_server_message ::
  "(string \<Rightarrow> IRCMessage option) \<Rightarrow> (string \<Rightarrow> 'p option) \<Rightarrow> dcc_config option \<Rightarrow> string
     \<Rightarrow> 'p message_route" where
  "handle_server_message parse parse_dcc_ctcp dcc_manager line =
     (case parse line of
        None \<Rightarrow> Unparsed_reported
      | Some parsed_msg \<Rightarrow>
          (let message_content = (case trailing parsed_msg of Some t \<Rightarrow> t | None \<Rightarrow> [])
           in if command parsed_msg \<in> set [''PRIVMSG'', ''NOTICE'']
                 \<and> startswith message_content ctcp_delimiter
                 \<and> endswith message_content ctcp_delimiter
                 \<and> startswith (py_upper (ctcp_payload_of message_content)) ''DCC ''
                 \<and> dcc_manager \<noteq> None
              then
                (let nick_from_parser =
                       (case source_nick parsed_msg of
                          None \<Rightarrow> ''UnknownNick''
                        | Some n \<Rightarrow> if n = [] then ''UnknownNick'' else n);
                     full_userhost_from_parser =
                       (case prefix parsed_msg of
                          None \<Rightarrow> nick_from_parser @ ''!UnknownUser@UnknownHost''
                        | Some p \<Rightarrow> if p = [] then nick_from_parser @ ''!UnknownUser@UnknownHost'' else p)
                 in Passed_to_dcc_manager
                      (handle_incoming_dcc_ctcp (the dcc_manager) parse_dcc_ctcp
                         nick_from_parser full_userhost_from_parser
                         (ctcp_payload_of message_content)))
              else Passed_to_router line))"

text \<open>
  The routing rule in the words of the specification: a PRIVMSG or NOTICE whose trailing
  begins and ends with \<^verbatim>\<open>\x01\<close> and whose payload starts with \<^verbatim>\<open>DCC \<close> up to case is
  diverted to the DCC CTCP handler if DCC is enabled, and every other message is
  treated as normal text by the router.
\<close>

definition is_dcc_ctcp :: "IRCMessage \<Rightarrow> bool" where
  "is_dcc_ctcp m =
     ((command m = ''PRIVMSG'' \<or> command m = ''NOTICE'') \<and>
      (\<exists>t payload. trailing m = Some t \<and> t = ctcp_delimiter @ payload @ ctcp_delimiter \<and>
                   startswith (py_upper payload) ''DCC ''))"

definition spec_goes_to_router :: "bool \<Rightarrow> IRCMessage \<Rightarrow> bool" where
  "spec_goes_to_router dcc_enabled m = (\<not> (is_dcc_ctcp m \<and> dcc_enabled))"

section \<open>Active-context switching: \<^verbatim>\<open>IRCClient_Logic.switch_active_context\<close>\<close>

text \<open>
  The method reads the context names (\<^verbatim>\<open>get_all_context_names()\<close>) and the name of the
  active context, and ends in one of three ways: it does nothing, it calls
  \<^verbatim>\<open>set_active_context\<close> with a name, or it shows an error message in the current
  context and returns.
\<close>

datatype switch_error =
    Invalid_window_number string nat
  | Ambiguous_window_name string "string list"
  | Window_not_found string

datatype switch_outcome =
    No_switch
  | Switched_to string
  | Error_message switch_error string

text \<open>The cycle order \<^verbatim>\<open>sorted_context_names\<close>. Python's \<^verbatim>\<open>sort\<close> is stable, as
  \<^const>\<open>sort_key\<close> is.\<close>

definition sorted_context_names :: "string list \<Rightarrow> string list" where
  "sorted_context_names context_names =
     (let regular_contexts =
            sort_key py_lower (filter (\<lambda>name. name \<notin> set [''Status'', ''DCC'']) context_names);
          with_status =
            (if ''Status'' \<in> set context_names then [''Status''] else []) @ regular_contexts
      in with_status @
         (if ''DCC'' \<in> set context_names \<and> ''DCC'' \<notin> set with_status then [''DCC''] else []))"

text \<open>
  \<^verbatim>\<open>current_active_name\<close> and \<^verbatim>\<open>current_idx\<close>: the active context, or the first of the
  cycle if there is none or it is not in the cycle. \<^verbatim>\<open>None\<close> stands for the early
  returns. A name is falsy when it is \<^verbatim>\<open>None\<close> or empty.
\<close>

definition current_position :: "string list \<Rightarrow> string option \<Rightarrow> (nat \<times> string) option" where
  "current_position sorted_names active_context_name =
     (let chosen =
            (if active_context_name \<noteq> None \<and> active_context_name \<noteq> Some []
             then active_context_name
             else if sorted_names \<noteq> [] then Some (hd sorted_names) else None)
      in case chosen of
           None \<Rightarrow> None
         | Some current_active_name \<Rightarrow>
            (case list_index sorted_names current_active_name of
               Some current_idx \<Rightarrow>
                 (if current_active_name = [] then None else Some (current_idx, current_active_name))
             | None \<Rightarrow>
                 (if sorted_names = [] then None
                  else if hd sorted_names = [] then None
                  else Some (0, hd sorted_names))))"

text \<open>The last lines: \<^verbatim>\<open>if new_active_context_name: set_active_context(...)\<close>.\<close>

definition finish_switch :: "string \<Rightarrow> switch_outcome" where
  "finish_switch new_active_context_name =
     (if new_active_context_name \<noteq> [] then Switched_to new_active_context_name else No_switch)"

text \<open>The resolution of an argument that is neither \<^verbatim>\<open>next\<close> nor \<^verbatim>\<open>prev\<close>.\<close>

definition resolve_name :: "string list \<Rightarrow> string \<Rightarrow> string \<Rightarrow> switch_outcome" where
  "resolve_name sorted_names current_active_name direction =
     (if direction \<in> set sorted_names then finish_switch direction
      else
        (case py_int direction of
           Some n \<Rightarrow>
             (if 0 \<le> n - 1 \<and> n - 1 < int (length sorted_names)
              then finish_switch (sorted_names ! nat (n - 1))
              else Error_message (Invalid_window_number direction (length sorted_names))
                     current_active_name)
         | None \<Rightarrow>
             (let found_ctx =
                    filter (\<lambda>name. py_contains (py_lower name) (py_lower direction)) sorted_names
              in if length found_ctx = 1 then finish_switch (hd found_ctx)
                 else if length found_ctx > 1
                 then Error_message (Ambiguous_window_name direction (sort found_ctx))
                        current_active_name
                 else
                   (let exact_match_case_insensitive =
                          filter (\<lambda>name. py_lower direction = py_lower name) sorted_names
                    in if length exact_match_case_insensitive = 1
                       then finish_switch (hd exact_match_case_insensitive)
                       else Error_message (Window_not_found direction) current_active_name))))"

definition switch_active_context :: "string list \<Rightarrow> string option \<Rightarrow> string \<Rightarrow> switch_outcome" where
  "switch_active_context context_names active_context_name direction =
     (if context_names = [] then No_switch
      else
        (let sorted_names = sorted_context_names context_names
         in case current_position sorted_names active_context_name of
              None \<Rightarrow> No_switch
            | Some (current_idx, current_active_name) \<Rightarrow>
               (let num_contexts = length sorted_names
                in if num_contexts = 0 then No_switch
                   else if direction = ''next''
                   then finish_switch (sorted_names ! ((current_idx + 1) mod num_contexts))
                   else if direction = ''prev''
                   then finish_switch
                          (sorted_names ! nat ((int current_idx - 1 + int num_contexts) mod int num_contexts))
                   else resolve_name sorted_names current_active_name direction)))"

section \<open>Nick collisions: \<^verbatim>\<open>_handle_err_nicknameinuse\<close>\<close>

text \<open>
  The fields of \<^verbatim>\<open>ConnectionInfo\<close> that the numeric handlers read and write. The
  handlers change the object returned by \<^verbatim>\<open>state_manager.get_connection_info()\<close> in
  place and store it again with \<^verbatim>\<open>state_manager.set\<close>; the model keeps the object.
\<close>

record ConnectionInfo =
  nick :: string
  currently_joined_channels :: "string set"
  last_attempted_nick_change :: "string option"








section \<open>Contexts and \<^verbatim>\<open>add_message\<close>\<close>

datatype ChannelJoinStatus =
    NOT_JOINED
  | PENDING_INITIAL_JOIN
  | JOIN_COMMAND_SENT
  | SELF_JOIN_RECEIVED
  | FULLY_JOINED
  | JOIN_FAILED
  | PARTED

text \<open>
  A context (window) with the attributes that \<^verbatim>\<open>add_message\<close> and the numeric
  handlers read and write. A line of the scrollback is kept with its colour attribute.
\<close>

record Context =
  name :: string
  type :: string
  join_status :: "ChannelJoinStatus option"
  users :: "string list"
  scrollback :: "(string \<times> int) list"
  scrollback_offset :: int

record ContextManager =
  contexts :: "string \<rightharpoonup> Context"
  active_context_name :: "string option"
  max_history :: nat

text \<open>The channel prefixes, as in \<^verbatim>\<open>name.startswith(("#", "&", "+", "!"))\<close>.\<close>

definition is_channel_name :: "string \<Rightarrow> bool" where
  "is_channel_name s =
     (startswith s ''#'' \<or> startswith s ''&'' \<or> startswith s ''+'' \<or> startswith s ''!'')"

text \<open>
  Modelled from the spec: \<^verbatim>\<open>ContextManager\<close> (\<^verbatim>\<open>_normalize_context_name\<close>,
  \<^verbatim>\<open>get_context\<close>, \<^verbatim>\<open>create_context\<close>, \<^verbatim>\<open>set_active_context\<close>,
  \<^verbatim>\<open>get_active_context\<close>, \<^verbatim>\<open>add_message_to_context\<close>) is not among the sources.
  The specification says that the manager case-folds channel names per RFC 1459
  (\<^verbatim>\<open>#Foo\<close> is \<^verbatim>\<open>#foo\<close>, and \<^verbatim>\<open>{}|^\<close> are the lowercase of \<^verbatim>\<open>[]\~\<close>), that a
  context name is unique after case-folding, that \<open>create_context\<close> takes a name, a
  type and an optional initial join status, and that the scrollback of a context never
  exceeds \<^verbatim>\<open>max_history\<close>: overflow evicts the oldest line.
\<close>

definition rfc1459_lower_char :: "char \<Rightarrow> char" where
  "rfc1459_lower_char c =
     (case map_of (zip [CHR ''['', CHR '']'', CHR 0x5C, CHR ''~''] ''{}|^'') c of
        Some l \<Rightarrow> l
      | None \<Rightarrow> lower_char c)"

definition normalize_context_name :: "string \<Rightarrow> string" where
  "normalize_context_name n = (if is_channel_name n then map rfc1459_lower_char n else n)"

definition get_context :: "ContextManager \<Rightarrow> string \<Rightarrow> Context option" where
  "get_context cm n = contexts cm (normalize_context_name n)"

definition put_context :: "ContextManager \<Rightarrow> string \<Rightarrow> Context \<Rightarrow> ContextManager" where
  "put_context cm n c = cm\<lparr>contexts := (contexts cm)(normalize_context_name n \<mapsto> c)\<rparr>"

definition create_context ::
  "ContextManager \<Rightarrow> string \<Rightarrow> string \<Rightarrow> ChannelJoinStatus option \<Rightarrow> bool \<times> ContextManager" where
  "create_context cm n context_type initial_join_status_for_channel =
     (case get_context cm n of
        Some existing \<Rightarrow> (False, cm)
      | None \<Rightarrow>
          (True,
           put_context cm n
             \<lparr> name = normalize_context_name n,
               type = context_type,
               join_status =
                 (if context_type = ''channel''
                  then (case initial_join_status_for_channel of
                          Some s \<Rightarrow> Some s
                        | None \<Rightarrow> Some NOT_JOINED)
                  else None),
               users = [],
               scrollback = [],
               scrollback_offset = 0 \<rparr>))"

definition get_active_context :: "ContextManager \<Rightarrow> Context option" where
  "get_active_context cm =
     (case active_context_name cm of
        None \<Rightarrow> None
      | Some n \<Rightarrow> get_context cm n)"

definition set_active_context :: "ContextManager \<Rightarrow> string \<Rightarrow> bool \<times> ContextManager" where
  "set_active_context cm n =
     (case get_context cm n of
        None \<Rightarrow> (False, cm)
      | Some c \<Rightarrow> (True, cm\<lparr>active_context_name := Some (normalize_context_name n)\<rparr>))"

definition keep_newest :: "nat \<Rightarrow> 'a list \<Rightarrow> 'a list" where
  "keep_newest n xs = drop (length xs - n) xs"

definition add_message_to_context ::
  "ContextManager \<Rightarrow> string \<Rightarrow> string \<Rightarrow> int \<Rightarrow> bool \<times> ContextManager" where
  "add_message_to_context cm n text color =
     (case get_context cm n of
        None \<Rightarrow> (False, cm)
      | Some c \<Rightarrow>
          (True,
           put_context cm n
             (c\<lparr>scrollback := keep_newest (max_history cm) (scrollback c @ [(text, color)])\<rparr>)))"

subsection \<open>The client\<close>

text \<open>
  The parts of \<^verbatim>\<open>IRCClient_Logic\<close> that \<^verbatim>\<open>add_message\<close>,
  \<^verbatim>\<open>handle_channel_fully_joined\<close> and the handlers of the numerics 366, 403, 471,
  473, 474 and 475 use: the UI (or \<^verbatim>\<open>None\<close>) with its colour table and the width
  of the message window, the context manager, the connection info held by the state
  manager (or \<^verbatim>\<open>None\<close>) and its \<^verbatim>\<open>initial_channels\<close>, the ignore list of the
  configuration, the result of \<^verbatim>\<open>time.strftime("%H:%M:%S ")\<close>, the target of the
  last \<^verbatim>\<open>/join\<close>, and the events given to the event manager, which is taken to be
  present. Log lines and \<^verbatim>\<open>ui_needs_update\<close> are left out.
\<close>

record UIManager =
  colors :: "string \<rightharpoonup> int"
  msg_win_width :: int

datatype client_event =
    Message_added_to_context string string string "string option" bool
  | Channel_fully_joined string

record IRCClient_Logic =
  ui :: "UIManager option"
  context_manager :: ContextManager
  connection_info :: "ConnectionInfo option"
  initial_channels :: "string list"
  is_source_ignored :: "string \<Rightarrow> bool"
  strftime_now :: string
  last_join_command_target :: "string option"
  events :: "client_event list"

subsection \<open>\<^verbatim>\<open>add_message\<close>\<close>

text \<open>The argument \<^verbatim>\<open>color_attr_or_key\<close> is a string, an integer or something else.\<close>

datatype color_arg = Color_key string | Color_attr int | Color_other

definition default_color :: "UIManager \<Rightarrow> int" where
  "default_color u = (case colors u ''default'' of Some d \<Rightarrow> d | None \<Rightarrow> 0)"

definition resolve_color :: "UIManager \<Rightarrow> color_arg \<Rightarrow> int" where
  "resolve_color u color_attr_or_key =
     (case color_attr_or_key of
        Color_key k \<Rightarrow> (case colors u k of Some v \<Rightarrow> v | None \<Rightarrow> default_color u)
      | Color_attr n \<Rightarrow> n
      | Color_other \<Rightarrow> default_color u)"

text \<open>
  \<^verbatim>\<open>target_context_name\<close>: the argument unless it is \<^verbatim>\<open>None\<close>, then the name of
  the active context, and \<^verbatim>\<open>"Status"\<close> when that is \<^verbatim>\<open>None\<close> or empty.
\<close>

definition target_context_name_of :: "ContextManager \<Rightarrow> string option \<Rightarrow> string" where
  "target_context_name_of cm context_name =
     (case (case context_name of Some n \<Rightarrow> Some n | None \<Rightarrow> active_context_name cm) of
        None \<Rightarrow> ''Status''
      | Some n \<Rightarrow> (if n = [] then ''Status'' else n))"

text \<open>The type and the initial join status of a context created for the target.\<close>

definition new_context_type :: "string \<Rightarrow> string \<times> ChannelJoinStatus option" where
  "new_context_type target_context_name =
     (if is_channel_name target_context_name then (''channel'', Some NOT_JOINED)
      else if target_context_name \<noteq> ''Status'' \<and> target_context_name \<noteq> ''DCC''
              \<and> \<not> py_contains target_context_name '':''
              \<and> \<not> is_channel_name target_context_name
      then (''query'', None)
      else (''generic'', None))"

text \<open>\<^verbatim>\<open>full_message.split(" ")\<close>: the pieces between single spaces.\<close>

fun split_on_space :: "string \<Rightarrow> string \<Rightarrow> string list" where
  "split_on_space piece [] = [piece]"
| "split_on_space piece (c # cs) =
     (if c = CHR '' '' then piece # split_on_space [] cs
      else split_on_space (piece @ [c]) cs)"

text \<open>The wrapping loop, with \<^verbatim>\<open>lines\<close> and \<^verbatim>\<open>current_line\<close> as its state.\<close>

fun wrap_words :: "int \<Rightarrow> string list \<Rightarrow> string list \<Rightarrow> string \<Rightarrow> string list \<times> string" where
  "wrap_words max_w [] lines current_line = (lines, current_line)"
| "wrap_words max_w (word # rest) lines current_line =
     (if current_line \<noteq> [] \<and> int (length current_line) + int (length word) + 1 > max_w
      then wrap_words max_w rest (lines @ [current_line]) word
      else wrap_words max_w rest lines
             (current_line @ (if current_line \<noteq> [] then '' '' else []) @ word))"

definition wrap_message :: "int \<Rightarrow> string \<Rightarrow> string list" where
  "wrap_message max_w full_message =
     (let (lines, current_line) = wrap_words max_w (split_on_space [] full_message) [] [];
          lines = (if current_line \<noteq> [] then lines @ [current_line] else lines)
      in if lines = [] \<and> full_message \<noteq> [] then lines @ [full_message] else lines)"

text \<open>The lines that a message is wrapped into: width, timestamp and wrapping.\<close>

definition message_lines :: "UIManager \<Rightarrow> string \<Rightarrow> string \<Rightarrow> bool \<Rightarrow> string list" where
  "message_lines u time_now text prefix_time =
     (let max_w = (if msg_win_width u > 1 then msg_win_width u - 1 else 80);
          timestamp = (if prefix_time then time_now else []);
          full_message =
            (if prefix_time \<and> \<not> startswith text (py_strip timestamp) then timestamp @ text
             else text)
      in wrap_message max_w full_message)"

text \<open>The loop \<^verbatim>\<open>for line_part in lines: add_message_to_context(...)\<close>.\<close>

definition add_lines_to_context ::
  "ContextManager \<Rightarrow> string \<Rightarrow> string list \<Rightarrow> int \<Rightarrow> ContextManager" where
  "add_lines_to_context cm target_context_name lines color =
     fold (\<lambda>line_part m. snd (add_message_to_context m target_context_name line_part color)) lines cm"

text \<open>
  The last test of the method:
  \<^verbatim>\<open>target_context_name == self.context_manager.active_context_name\<close> and
  \<^verbatim>\<open>target_context_obj.scrollback_offset > 0\<close>, then
  \<^verbatim>\<open>scrollback_offset += num_lines_added_for_this_message\<close>. The names are compared
  as they are.
\<close>

definition bump_scrollback_offset :: "ContextManager \<Rightarrow> string \<Rightarrow> nat \<Rightarrow> ContextManager" where
  "bump_scrollback_offset cm target_context_name num_lines_added =
     (case get_context cm target_context_name of
        None \<Rightarrow> cm
      | Some target_context_obj \<Rightarrow>
          (if Some target_context_name = active_context_name cm
              \<and> scrollback_offset target_context_obj > 0
           then put_context cm target_context_name
                  (target_context_obj\<lparr>scrollback_offset :=
                     scrollback_offset target_context_obj + int num_lines_added\<rparr>)
           else cm))"

text \<open>The branch taken when the target context cannot be created: the message goes to
  the Status window, which is created if it is missing.\<close>

definition report_context_error :: "ContextManager \<Rightarrow> string \<Rightarrow> string \<Rightarrow> int \<Rightarrow> ContextManager" where
  "report_context_error cm target_context_name text color =
     (let cm1 = (case get_context cm ''Status'' of
                   None \<Rightarrow> snd (create_context cm ''Status'' ''status'' None)
                 | Some status_ctx \<Rightarrow> cm)
      in snd (add_message_to_context cm1 ''Status''
                (''[CtxErr for '' @ [CHR 0x27] @ target_context_name @ [CHR 0x27] @ ''] '' @ text)
                color))"

definition add_message ::
  "IRCClient_Logic \<Rightarrow> string \<Rightarrow> color_arg \<Rightarrow> bool \<Rightarrow> string option \<Rightarrow> string option \<Rightarrow> bool
     \<Rightarrow> IRCClient_Logic" where
  "add_message client text color_attr_or_key prefix_time context_name source_full_ident
       is_privmsg_or_notice =
     (case ui client of
        None \<Rightarrow> client
      | Some u \<Rightarrow>
          (let resolved_color_attr = resolve_color u color_attr_or_key;
               target_context_name = target_context_name_of (context_manager client) context_name
           in if is_privmsg_or_notice \<and> source_full_ident \<noteq> None \<and> source_full_ident \<noteq> Some []
                 \<and> is_source_ignored client (the source_full_ident)
              then client
              else
                (case (case get_context (context_manager client) target_context_name of
                         Some target_ctx_exists \<Rightarrow> (True, context_manager client)
                       | None \<Rightarrow>
                           create_context (context_manager client) target_context_name
                             (fst (new_context_type target_context_name))
                             (snd (new_context_type target_context_name))) of
                   (False, cm) \<Rightarrow>
                     client\<lparr>context_manager :=
                       report_context_error cm target_context_name text resolved_color_attr\<rparr>
                 | (True, cm) \<Rightarrow>
                     (case get_context cm target_context_name of
                        None \<Rightarrow> client\<lparr>context_manager := cm\<rparr>
                      | Some target_context_obj \<Rightarrow>
                          (let lines = message_lines u (strftime_now client) text prefix_time
                           in client
                                \<lparr>context_manager :=
                                   bump_scrollback_offset
                                     (add_lines_to_context cm target_context_name lines
                                        resolved_color_attr)
                                     target_context_name (length lines),
                                 events := events client @
                                   [Message_added_to_context target_context_name text
                                      (case color_attr_or_key of
                                         Color_key k \<Rightarrow> k
                                       | _ \<Rightarrow> ''system'')
                                      source_full_ident is_privmsg_or_notice]\<rparr>)))))"

section \<open>Join numerics: 366, 403, 471, 473, 474 and 475\<close>

text \<open>
  \<^verbatim>\<open>IRCClient_Logic.handle_channel_fully_joined\<close>: the event, and the switch of the
  active context to the channel when it is the target of the last \<^verbatim>\<open>/join\<close>, or
  an initial channel while no window or the Status window is active. Channel names are
  compared after normalisation.
\<close>

definition handle_channel_fully_joined :: "IRCClient_Logic \<Rightarrow> string \<Rightarrow> IRCClient_Logic" where
  "handle_channel_fully_joined client channel_name =
     (let normalized_channel_name = normalize_context_name channel_name;
          client1 = client\<lparr>events := events client @ [Channel_fully_joined normalized_channel_name]\<rparr>
      in if last_join_command_target client1 \<noteq> None
            \<and> last_join_command_target client1 \<noteq> Some []
            \<and> normalize_context_name (the (last_join_command_target client1)) = normalized_channel_name
         then client1
                \<lparr>context_manager :=
                   snd (set_active_context (context_manager client1) normalized_channel_name),
                 last_join_command_target := None\<rparr>
         else
           (case get_active_context (context_manager client1) of
              Some active_ctx \<Rightarrow>
                (if name active_ctx = ''Status''
                    \<and> connection_info client1 \<noteq> None \<and> initial_channels client1 \<noteq> []
                    \<and> normalized_channel_name \<in> set (map normalize_context_name (initial_channels client1))
                 then client1
                        \<lparr>context_manager :=
                           snd (set_active_context (context_manager client1) normalized_channel_name)\<rparr>
                 else client1)
            | None \<Rightarrow>
                (if connection_info client1 \<noteq> None \<and> initial_channels client1 \<noteq> []
                    \<and> normalized_channel_name \<in> set (map normalize_context_name (initial_channels client1))
                 then client1
                        \<lparr>context_manager :=
                           snd (set_active_context (context_manager client1) normalized_channel_name)\<rparr>
                 else client1)))"

text \<open>
  \<^verbatim>\<open>client.ui.colors["error"]\<close>, the argument of the handlers' calls of
  \<^verbatim>\<open>add_message\<close>: an \<^verbatim>\<open>AttributeError\<close> without a UI and a \<^verbatim>\<open>KeyError\<close> without
  the key.
\<close>

definition error_color :: "IRCClient_Logic \<Rightarrow> py_exception + int" where
  "error_color client =
     (case ui client of
        None \<Rightarrow> Inl (Exception ''AttributeError'')
      | Some u \<Rightarrow>
          (case colors u ''error'' of
             None \<Rightarrow> Inl (KeyError ''error'')
           | Some c \<Rightarrow> Inr c))"

text \<open>The assignment \<^verbatim>\<open>ctx.join_status = ...\<close> to the context found under a name.\<close>

definition set_join_status :: "ContextManager \<Rightarrow> string \<Rightarrow> ChannelJoinStatus \<Rightarrow> ContextManager" where
  "set_join_status cm n s =
     (case get_context cm n of
        None \<Rightarrow> cm
      | Some ctx \<Rightarrow> put_context cm n (ctx\<lparr>join_status := Some s\<rparr>))"

text \<open>
  \<^verbatim>\<open>conn_info.currently_joined_channels.add(...)\<close> and \<^verbatim>\<open>.discard(...)\<close> followed by
  \<^verbatim>\<open>state_manager.set("connection_info", conn_info)\<close>, when there is a connection
  info. The set holds the names as they are given.
\<close>

definition joined_add :: "string \<Rightarrow> IRCClient_Logic \<Rightarrow> IRCClient_Logic" where
  "joined_add channel client =
     client\<lparr>connection_info :=
       map_option
         (\<lambda>info. info\<lparr>currently_joined_channels :=
            insert channel (currently_joined_channels info)\<rparr>)
         (connection_info client)\<rparr>"

definition joined_discard :: "string \<Rightarrow> IRCClient_Logic \<Rightarrow> IRCClient_Logic" where
  "joined_discard channel client =
     client\<lparr>connection_info :=
       map_option
         (\<lambda>info. info\<lparr>currently_joined_channels :=
            currently_joined_channels info - {channel}\<rparr>)
         (connection_info client)\<rparr>"

text \<open>\<^verbatim>\<open>display_params[0] if display_params else fallback\<close>.\<close>

definition first_param :: "string list \<Rightarrow> string \<Rightarrow> string" where
  "first_param display_params fallback = (case display_params of [] \<Rightarrow> fallback | p # rest \<Rightarrow> p)"

text \<open>\<^verbatim>\<open>_handle_rpl_endofnames\<close> (366). The result is the client afterwards, or the
  exception that leaves the handler.\<close>

definition handle_rpl_endofnames :: "IRCClient_Logic \<Rightarrow> string list \<Rightarrow> py_exception + IRCClient_Logic" where
  "handle_rpl_endofnames client display_params =
     (let channel_ended = first_param display_params ''Unknown Channel'';
          not_found =
            (case error_color client of
               Inl e \<Rightarrow> Inl e
             | Inr c \<Rightarrow>
                 Inr (add_message client
                        (''End of names for '' @ channel_ended @ '' (context not found).'')
                        (Color_attr c) True (Some ''Status'') None False))
      in case get_context (context_manager client) channel_ended of
           None \<Rightarrow> not_found
         | Some ctx_for_endofnames \<Rightarrow>
             (if type ctx_for_endofnames \<noteq> ''channel'' then not_found
              else if join_status ctx_for_endofnames
                        \<in> {Some SELF_JOIN_RECEIVED, Some JOIN_COMMAND_SENT, Some PENDING_INITIAL_JOIN}
              then Inr (handle_channel_fully_joined
                          (joined_add channel_ended
                             (client\<lparr>context_manager :=
                                set_join_status (context_manager client) channel_ended FULLY_JOINED\<rparr>))
                          channel_ended)
              else if join_status ctx_for_endofnames = Some NOT_JOINED
              then Inr (add_message client
                          (''Users in '' @ channel_ended @ '': ''
                             @ str_nat (length (users ctx_for_endofnames)))
                          (Color_key ''system'') True (Some channel_ended) None False)
              else Inr client))"

text \<open>
  What \<^verbatim>\<open>_handle_err_nosuchchannel\<close> (403) and \<^verbatim>\<open>_handle_err_channel_join_group\<close>
  (471, 473, 474, 475) do after building their message: the message goes to the Status
  window, the context found under the channel name, if it is a channel, gets the status
  \<^verbatim>\<open>JOIN_FAILED\<close>, and the channel name is discarded from the joined channels.
\<close>

definition join_failed :: "IRCClient_Logic \<Rightarrow> string \<Rightarrow> string \<Rightarrow> py_exception + IRCClient_Logic" where
  "join_failed client message channel_name =
     (case error_color client of
        Inl e \<Rightarrow> Inl e
      | Inr c \<Rightarrow>
          (let client1 = add_message client message (Color_attr c) True (Some ''Status'') None False;
               client2 =
                 (case get_context (context_manager client1) channel_name of
                    None \<Rightarrow> client1
                  | Some failed_join_ctx \<Rightarrow>
                      (if type failed_join_ctx = ''channel''
                       then client1\<lparr>context_manager :=
                              set_join_status (context_manager client1) channel_name JOIN_FAILED\<rparr>
                       else client1))
           in Inr (joined_discard channel_name client2)))"

definition handle_err_nosuchchannel :: "IRCClient_Logic \<Rightarrow> string list \<Rightarrow> py_exception + IRCClient_Logic" where
  "handle_err_nosuchchannel client display_params =
     (let channel_name = first_param display_params ''channel''
      in join_failed client
           (''Channel '' @ channel_name @ '' does not exist or is invalid.'') channel_name)"

text \<open>The reasons of \<^verbatim>\<open>error_message_map\<close>; \<^verbatim>\<open>int(parsed_msg.command)\<close> raises a
  \<^verbatim>\<open>ValueError\<close> for a command that is not a number.\<close>

definition join_error_reason :: "int \<Rightarrow> string" where
  "join_error_reason code =
     (case map_of [(471, ''is full''), (473, ''is invite-only''), (474, ''you are banned''),
                   (475, ''bad channel key (password)'')] code of
        Some reason \<Rightarrow> reason
      | None \<Rightarrow> ''join error'')"

definition handle_err_channel_join_group ::
  "IRCClient_Logic \<Rightarrow> IRCMessage \<Rightarrow> string list \<Rightarrow> string option \<Rightarrow> py_exception + IRCClient_Logic" where
  "handle_err_channel_join_group client parsed_msg display_params trailing_text =
     (case py_int (command parsed_msg) of
        None \<Rightarrow> Inl (Exception ''ValueError'')
      | Some code \<Rightarrow>
          (let channel_name = first_param display_params ''channel''
           in join_failed client
                (''Cannot join '' @ channel_name @ '': '' @ join_error_reason code @ ''. ''
                   @ (case trailing_text of None \<Rightarrow> [] | Some t \<Rightarrow> t))
                channel_name))"

text \<open>
  The invariant of the specification: every name in \<^verbatim>\<open>currently_joined_channels\<close> is
  the name of a channel context whose \<^verbatim>\<open>join_status\<close> is \<^verbatim>\<open>FULLY_JOINED\<close>. The
  context of a name is the one that the context manager finds under it.
\<close>

definition joined_channels :: "IRCClient_Logic \<Rightarrow> string set" where
  "joined_channels client =
     (case connection_info client of
        None \<Rightarrow> {}
      | Some info \<Rightarrow> currently_joined_channels info)"

definition fully_joined :: "IRCClient_Logic \<Rightarrow> string \<Rightarrow> bool" where
  "fully_joined client channel =
     (case get_context (context_manager client) channel of
        None \<Rightarrow> False
      | Some ctx \<Rightarrow> type ctx = ''channel'' \<and> join_status ctx = Some FULLY_JOINED)"

definition joined_are_fully_joined :: "IRCClient_Logic \<Rightarrow> bool" where
  "joined_are_fully_joined client =
     (joined_channels client \<subseteq> {channel. fully_joined client channel})"

section \<open>Command dispatch: \<^verbatim>\<open>CommandHandler.process_user_command\<close>\<close>

text \<open>
  \<^verbatim>\<open>process_user_command\<close> calls code that may call it again: a command handler, a
  script command handler or \<^verbatim>\<open>handle_text_input\<close>. What such a callee does is given
  as a list of steps. The step that matters is the re-entrant call; the others change
  the active context, do something else that is only recorded, or raise.
\<close>

datatype handler_step =
    Calls_process_user_command string
  | Switches_active_context "string option"
  | Other_effect string
  | Raises py_exception

text \<open>What the dispatcher and its callees did, in order.\<close>

datatype dispatch_event =
    Command_dispatched string string
  | Script_command_dispatched string string
  | Text_input_handled string
  | Message_added string
  | Effect string

text \<open>
  \<^verbatim>\<open>self.command_map\<close> maps a command name to a handler, called with \<^verbatim>\<open>args_str\<close>;
  \<^verbatim>\<open>script_manager.get_script_command_handler_and_data\<close> finds a script handler,
  called with \<^verbatim>\<open>args_str\<close> and event data built from the raw line.
\<close>

record command_environment =
  command_map :: "string \<rightharpoonup> (string \<Rightarrow> handler_step list)"
  script_command_handler :: "string \<rightharpoonup> (string \<Rightarrow> string \<Rightarrow> handler_step list)"
  handle_text_input :: "string \<Rightarrow> handler_step list"

text \<open>\<^verbatim>\<open>self._processing_depth\<close>, the active context name and the record of what was
  dispatched.\<close>

record handler_state =
  processing_depth :: int
  window_context_name :: "string option"
  dispatched :: "dispatch_event list"

text \<open>The call returns \<^verbatim>\<open>True\<close> or \<^verbatim>\<open>False\<close>, or an exception leaves it.\<close>

datatype command_outcome = Returned bool | Propagated py_exception

datatype run_result = Completed | Raised py_exception

definition record_event :: "dispatch_event \<Rightarrow> handler_state \<Rightarrow> handler_state" where
  "record_event e st = st\<lparr>dispatched := dispatched st @ [e]\<rparr>"

text \<open>\<^verbatim>\<open>command_parts = line[1:].split(" ", 1)\<close>, the command name lowercased, and
  \<^verbatim>\<open>args_str\<close>.\<close>

definition split_command :: "string \<Rightarrow> string \<times> string" where
  "split_command line =
     (let body = drop 1 line;
          cmd = py_lower (takeWhile (\<lambda>c. c \<noteq> CHR '' '') body);
          args_str = drop 1 (dropWhile (\<lambda>c. c \<noteq> CHR '' '') body)
      in (cmd, args_str))"

text \<open>
  The \<^verbatim>\<open>try\<close> around a handler call: \<^verbatim>\<open>except Exception\<close> reports the error with
  \<^verbatim>\<open>add_message\<close> and the dispatcher returns \<^verbatim>\<open>True\<close>; anything else propagates.
  \<^verbatim>\<open>handle_text_input\<close> is called without such a \<^verbatim>\<open>try\<close>.
\<close>

definition after_handler :: "string \<Rightarrow> run_result \<times> handler_state \<Rightarrow> command_outcome \<times> handler_state" where
  "after_handler what r =
     (case r of
        (Completed, s) \<Rightarrow> (Returned True, s)
      | (Raised e, s) \<Rightarrow>
          (if is_Exception e
           then (Returned True, record_event (Message_added (''Error in '' @ what)) s)
           else (Propagated e, s)))"

definition after_text_input :: "run_result \<times> handler_state \<Rightarrow> command_outcome \<times> handler_state" where
  "after_text_input r =
     (case r of
        (Completed, s) \<Rightarrow> (Returned True, s)
      | (Raised e, s) \<Rightarrow> (Propagated e, s))"

text \<open>The \<^verbatim>\<open>finally\<close> clause: \<^verbatim>\<open>self._processing_depth -= 1\<close>, on every way out of
  the \<^verbatim>\<open>try\<close> block.\<close>

definition leave :: "command_outcome \<times> handler_state \<Rightarrow> command_outcome \<times> handler_state" where
  "leave r = (fst r, (snd r)\<lparr>processing_depth := processing_depth (snd r) - 1\<rparr>)"

text \<open>Measures for the termination proof: how many more nested calls the depth counter
  lets through, and the number of steps left in a handler.\<close>

definition call_rank ::
  "command_environment \<times> handler_state \<times> string + command_environment \<times> handler_step list \<times> handler_state \<Rightarrow> nat" where
  "call_rank c =
     (case c of
        Inl (env, st, line) \<Rightarrow>
          (if processing_depth st \<ge> 1 then 0 else 2 * nat (1 - processing_depth st) + 2)
      | Inr (env, h, st) \<Rightarrow> 2 * nat (2 - processing_depth st) + 1)"

definition call_length ::
  "command_environment \<times> handler_state \<times> string + command_environment \<times> handler_step list \<times> handler_state \<Rightarrow> nat" where
  "call_length c = (case c of Inl _ \<Rightarrow> 0 | Inr (env, h, st) \<Rightarrow> length h)"

text \<open>
  The method and the execution of a callee's steps. The first test is made after the
  increment, before the \<^verbatim>\<open>try\<close> block, so that branch undoes the increment itself.
\<close>

function process_user_command ::
    "command_environment \<Rightarrow> handler_state \<Rightarrow> string \<Rightarrow> command_outcome \<times> handler_state"
  and run_handler ::
    "command_environment \<Rightarrow> handler_step list \<Rightarrow> handler_state \<Rightarrow> run_result \<times> handler_state"
where
  "process_user_command env st line =
     (if processing_depth st + 1 > 1
      then (Returned False, st\<lparr>processing_depth := processing_depth st + 1 - 1\<rparr>)
      else
        leave
          (if \<not> startswith line ''/'' then
             (if window_context_name st \<noteq> None \<and> window_context_name st \<noteq> Some ''''
              then after_text_input
                     (run_handler env (handle_text_input env line)
                        (record_event (Text_input_handled line)
                           (st\<lparr>processing_depth := processing_depth st + 1\<rparr>)))
              else (Returned False,
                    record_event (Message_added ''No active window to send message to.'')
                      (st\<lparr>processing_depth := processing_depth st + 1\<rparr>)))
           else
             (case command_map env (fst (split_command line)) of
                Some handler_func \<Rightarrow>
                  after_handler (''command /'' @ fst (split_command line))
                    (run_handler env (handler_func (snd (split_command line)))
                       (record_event (Command_dispatched (fst (split_command line)) (snd (split_command line)))
                          (st\<lparr>processing_depth := processing_depth st + 1\<rparr>)))
              | None \<Rightarrow>
                 (case script_command_handler env (fst (split_command line)) of
                    Some script_handler \<Rightarrow>
                      after_handler (''script command /'' @ fst (split_command line))
                        (run_handler env (script_handler (snd (split_command line)) line)
                           (record_event (Script_command_dispatched (fst (split_command line)) (snd (split_command line)))
                              (st\<lparr>processing_depth := processing_depth st + 1\<rparr>)))
                  | None \<Rightarrow>
                      (Returned True,
                       record_event (Message_added (''Unknown command: '' @ fst (split_command line)))
                         (st\<lparr>processing_depth := processing_depth st + 1\<rparr>))))))"
| "run_handler env [] st = (Completed, st)"
| "run_handler env (Calls_process_user_command l # rest) st =
     (case process_user_command env st l of
        (Propagated e, st') \<Rightarrow> (Raised e, st')
      | (Returned b, st') \<Rightarrow> run_handler env rest st')"
| "run_handler env (Switches_active_context c # rest) st =
     run_handler env rest (st\<lparr>window_context_name := c\<rparr>)"
| "run_handler env (Other_effect x # rest) st = run_handler env rest (record_event (Effect x) st)"
| "run_handler env (Raises e # rest) st = (Raised e, st)"
  by pat_completeness auto

text \<open>
  The recursion is nested: the steps after a re-entrant call run in the state that the
  call returns. That it ends rests on the depth counter, which every call on the domain
  leaves as it found it.
\<close>

lemma depth_record_event: "processing_depth (record_event e st) = processing_depth st"
  by (simp add: record_event_def)

lemma depth_after_handler: "processing_depth (snd (after_handler w r)) = processing_depth (snd r)"
  by (cases r) (simp add: after_handler_def depth_record_event split: run_result.splits)

lemma depth_after_text_input: "processing_depth (snd (after_text_input r)) = processing_depth (snd r)"
  by (cases r) (simp add: after_text_input_def split: run_result.splits)

lemma depth_leave: "processing_depth (snd (leave r)) = processing_depth (snd r) - 1"
  by (simp add: leave_def)

lemma depth_restored_on_domain:
  "process_user_command_run_handler_dom (Inl (env, st, line)) \<Longrightarrow>
     processing_depth (snd (process_user_command env st line)) = processing_depth st"
  "process_user_command_run_handler_dom (Inr (env', h, st')) \<Longrightarrow>
     processing_depth (snd (run_handler env' h st')) = processing_depth st'"
proof (induction env st line and env' h st' rule: process_user_command_run_handler.pinduct)
  case (1 env st line)
  show ?case
    by (simp add: process_user_command.psimps[OF "1.hyps"] "1.IH" depth_leave
          depth_after_handler depth_after_text_input depth_record_event split: option.splits)
next
  case (2 env st)
  then show ?case by (simp add: run_handler.psimps)
next
  case (3 env l rest st)
  obtain x y where xy: "process_user_command env st l = (x, y)" by (cases "process_user_command env st l")
  have y: "processing_depth y = processing_depth st" using "3.IH"(1) xy by simp
  show ?case
  proof (cases x)
    case (Returned b)
    with "3.IH"(2)[OF xy[symmetric] Returned] y xy show ?thesis
      by (simp add: run_handler.psimps(2)[OF "3.hyps"])
  next
    case (Propagated e)
    with y xy show ?thesis by (simp add: run_handler.psimps(2)[OF "3.hyps"])
  qed
next
  case (4 env c rest st)
  then show ?case by (simp add: run_handler.psimps)
next
  case (5 env x rest st)
  then show ?case by (simp add: run_handler.psimps depth_record_event)
next
  case (6 env e rest st)
  then show ?case by (simp add: run_handler.psimps)
qed

lemma nested_call_returns_decreasing:
  assumes "process_user_command_run_handler_dom (Inl (env, st, l))"
    and "(x, y) = process_user_command env st l"
  shows "(Inr (env, rest, y), Inr (env, Calls_process_user_command l # rest, st))
           \<in> call_rank <*mlex*> measure call_length"
proof -
  have "processing_depth y = processing_depth st"
    using depth_restored_on_domain(1)[OF assms(1)] assms(2)[symmetric] by simp
  then show ?thesis
    by (intro mlex_leq) (simp_all add: call_rank_def call_length_def)
qed

termination process_user_command
proof (relation "call_rank <*mlex*> measure call_length", goal_cases)
  case 1
  show ?case by (simp add: wf_mlex)
next
  case (2 st line env)
  then show ?case
    by (intro mlex_less) (simp add: call_rank_def depth_record_event)
next
  case (3 st line env x2)
  then show ?case
    by (intro mlex_less) (simp add: call_rank_def depth_record_event)
next
  case (4 st line env x2)
  then show ?case
    by (intro mlex_less) (simp add: call_rank_def depth_record_event)
next
  case (5 env st l rest)
  have "2 * nat (1 - d) + 2 < 2 * nat (2 - d) + 1" if "\<not> 1 \<le> d" for d :: int
    using that by arith
  then show ?case
    by (intro mlex_less) (simp add: call_rank_def)
next
  case 6
  then show ?case by (blast intro: nested_call_returns_decreasing)
next
  case (7 env rest st c)
  show ?case
    by (intro mlex_leq) (simp_all add: call_rank_def call_length_def)
next
  case (8 env rest st x)
  show ?case
    by (intro mlex_leq) (simp_all add: call_rank_def call_length_def depth_record_event)
qed

declare process_user_command.simps [simp del]

subsection \<open>Invocations from inside a call\<close>

text \<open>
  The invocations of \<^verbatim>\<open>process_user_command\<close> that happen while a call of it runs.
  \<open>nested_invocation env st line s l\<close>: during the call with the line \<open>line\<close>
  entered in the state \<open>st\<close>, the callee that the call dispatches to (or a callee of
  an invocation nested deeper) invokes \<^verbatim>\<open>process_user_command\<close> with the line
  \<open>l\<close> in the state \<open>s\<close>. \<open>handler_invokes env h st s l\<close>: a callee with the
  steps \<open>h\<close>, started in the state \<open>st\<close>, makes that invocation. The rules follow
  the branches of the method and the steps of a callee one by one.
\<close>

inductive nested_invocation ::
    "command_environment \<Rightarrow> handler_state \<Rightarrow> string \<Rightarrow> handler_state \<Rightarrow> string \<Rightarrow> bool"
  and handler_invokes ::
    "command_environment \<Rightarrow> handler_step list \<Rightarrow> handler_state \<Rightarrow> handler_state \<Rightarrow> string \<Rightarrow> bool"
where
  in_text_input:
    "\<not> processing_depth st + 1 > 1 \<Longrightarrow> \<not> startswith line ''/'' \<Longrightarrow>
     window_context_name st \<noteq> None \<Longrightarrow> window_context_name st \<noteq> Some [] \<Longrightarrow>
     handler_invokes env (handle_text_input env line)
       (record_event (Text_input_handled line)
          (st\<lparr>processing_depth := processing_depth st + 1\<rparr>)) s l \<Longrightarrow>
     nested_invocation env st line s l"
| in_command:
    "\<not> processing_depth st + 1 > 1 \<Longrightarrow> startswith line ''/'' \<Longrightarrow>
     command_map env (fst (split_command line)) = Some handler_func \<Longrightarrow>
     handler_invokes env (handler_func (snd (split_command line)))
       (record_event (Command_dispatched (fst (split_command line)) (snd (split_command line)))
          (st\<lparr>processing_depth := processing_depth st + 1\<rparr>)) s l \<Longrightarrow>
     nested_invocation env st line s l"
| in_script_command:
    "\<not> processing_depth st + 1 > 1 \<Longrightarrow> startswith line ''/'' \<Longrightarrow>
     command_map env (fst (split_command line)) = None \<Longrightarrow>
     script_command_handler env (fst (split_command line)) = Some script_handler \<Longrightarrow>
     handler_invokes env (script_handler (snd (split_command line)) line)
       (record_event (Script_command_dispatched (fst (split_command line)) (snd (split_command line)))
          (st\<lparr>processing_depth := processing_depth st + 1\<rparr>)) s l \<Longrightarrow>
     nested_invocation env st line s l"
| this_step:
    "handler_invokes env (Calls_process_user_command l # rest) st st l"
| inside_step:
    "nested_invocation env st l s' l' \<Longrightarrow>
     handler_invokes env (Calls_process_user_command l # rest) st s' l'"
| after_call:
    "process_user_command env st l = (Returned b, st') \<Longrightarrow>
     handler_invokes env rest st' s' l' \<Longrightarrow>
     handler_invokes env (Calls_process_user_command l # rest) st s' l'"
| after_switch:
    "handler_invokes env rest (st\<lparr>window_context_name := c\<rparr>) s' l' \<Longrightarrow>
     handler_invokes env (Switches_active_context c # rest) st s' l'"
| after_effect:
    "handler_invokes env rest (record_event (Effect x) st) s' l' \<Longrightarrow>
     handler_invokes env (Other_effect x # rest) st s' l'"

section \<open>Sample data\<close>

definition example_transfer :: DCCTransfer where
  "example_transfer =
     \<lparr> transfer_id = ''a1'', transfer_type = SEND, peer_nick = ''bob'',
       original_filename = ''movie.mkv'', local_filepath = ''/tmp/movie.mkv'',
       filesize = 1000000, bytes_transferred = 500000, status = FAILED,
       end_time = Some 5 \<rparr>"

definition example_config :: dcc_config where
  "example_config =
     \<lparr> enabled = True, resume_enabled = True, cleanup_enabled = True,
       transfer_max_age_seconds = 10, passive_mode_token_timeout = 120,
       port_range_start = 1024, port_range_end = 65535 \<rparr>"


text \<open>A transfer table with terminal and non-terminal transfers of several ages; the
  clock of the cleanup examples reads 100 and the maximal age is 10.\<close>

definition transfers_before_cleanup :: transfer_table where
  "transfers_before_cleanup =
     [(''c1'', example_transfer\<lparr>status := COMPLETED, end_time := Some 5\<rparr>),
      (''f1'', example_transfer\<lparr>status := FAILED, end_time := Some 5\<rparr>),
      (''c2'', example_transfer\<lparr>status := COMPLETED, end_time := Some 95\<rparr>),
      (''x1'', example_transfer\<lparr>status := CANCELLED, end_time := Some 80\<rparr>),
      (''c3'', example_transfer\<lparr>status := COMPLETED, end_time := Some 90\<rparr>),
      (''f2'', example_transfer\<lparr>status := FAILED, end_time := None\<rparr>),
      (''t1'', example_transfer\<lparr>status := TIMED_OUT, end_time := Some 89\<rparr>),
      (''r1'', example_transfer\<lparr>status := TRANSFERRING, end_time := Some 5\<rparr>),
      (''q1'', example_transfer\<lparr>status := QUEUED, end_time := None\<rparr>)]"


definition inverted_range_config :: dcc_config where
  "inverted_range_config = example_config\<lparr>port_range_start := 6000, port_range_end := 5000\<rparr>"

definition only_1026_free :: "int \<Rightarrow> bind_outcome" where
  "only_1026_free p = (if p = 1026 then Bound else Addr_in_use)"


definition example_offer :: PassiveOffer where
  "example_offer =
     \<lparr> offer_nick = ''carol'', offer_filename = ''gift.bin'', offer_filesize = 2048,
       offer_ip_str = Some ''192.168.1.7'', offer_timestamp = 50 \<rparr>"

definition example_environment :: dcc_environment where
  "example_environment =
     \<lparr> validate_download_path = (\<lambda>name size. Inr (''/downloads/'' @ name)),
       bind_port = only_1026_free,
       local_ip_for_ctcp = ''192.168.1.1'',
       format_dcc_accept_ctcp = (\<lambda>name ip port pos token. Some (''DCC ACCEPT '' @ name @ '' '' @ token)),
       generate_transfer_id = ''id-1'',
       monotonic_now = 100 \<rparr>"


text \<open>The same surroundings with every port of the range in use.\<close>

definition no_port_free :: "int \<Rightarrow> bind_outcome" where
  "no_port_free p = Addr_in_use"

definition crowded_environment :: dcc_environment where
  "crowded_environment = example_environment\<lparr>bind_port := no_port_free\<rparr>"


text \<open>A command \<^verbatim>\<open>/again\<close> whose handler submits \<^verbatim>\<open>/again\<close> once more and then does
  something else, a command \<^verbatim>\<open>/crash\<close> whose handler raises after doing the same,
  and a command \<^verbatim>\<open>/exit\<close> whose handler raises \<^verbatim>\<open>SystemExit\<close>.\<close>

definition reentrant_commands :: command_environment where
  "reentrant_commands =
     \<lparr> command_map =
         [''again'' \<mapsto> (\<lambda>args. [Calls_process_user_command ''/again'', Other_effect ''done'']),
          ''crash'' \<mapsto> (\<lambda>args. [Calls_process_user_command ''/again'', Raises (Exception ''boom'')]),
          ''exit'' \<mapsto> (\<lambda>args. [Raises (BaseException ''SystemExit'')])],
       script_command_handler = Map.empty,
       handle_text_input = (\<lambda>line. []) \<rparr>"

definition idle_state :: handler_state where
  "idle_state =
     \<lparr> processing_depth = 0, window_context_name = Some ''Status'', dispatched = [] \<rparr>"


text \<open>A DCC offer arriving in a PRIVMSG, and a configuration with DCC disabled.\<close>

definition dcc_offer_message :: IRCMessage where
  "dcc_offer_message =
     \<lparr> command = ''PRIVMSG'',
       trailing = Some (ctcp_delimiter @ ''dcc SEND gift.bin 3232235777 49200 2048'' @ ctcp_delimiter),
       source_nick = Some ''carol'',
       prefix = Some ''carol!c@example.org'' \<rparr>"

definition dcc_disabled_config :: dcc_config where
  "dcc_disabled_config = example_config\<lparr>enabled := False\<rparr>"


text \<open>Three windows, two of which contain the name of the other channel.\<close>

definition three_windows :: "string list" where
  "three_windows = [''#channel'', ''Status'', ''#chan'']"





text \<open>
  A client in the channel \<^verbatim>\<open>#foo\<close>, whose window is active and scrolled up by three
  lines. The clock reads 12:00:05.
\<close>

definition status_window :: Context where
  "status_window =
     \<lparr> name = ''Status'', type = ''status'', join_status = None, users = [],
       scrollback = [(''12:00:00 Welcome'', 2)], scrollback_offset = 0 \<rparr>"

definition foo_window :: Context where
  "foo_window =
     \<lparr> name = ''#foo'', type = ''channel'', join_status = Some FULLY_JOINED,
       users = [''alice'', ''me''],
       scrollback = [(''12:00:01 one'', 2), (''12:00:02 two'', 2), (''12:00:03 three'', 2),
                     (''12:00:04 four'', 2)],
       scrollback_offset = 3 \<rparr>"

definition client_in_foo :: IRCClient_Logic where
  "client_in_foo =
     \<lparr> ui = Some \<lparr> colors = [''default'' \<mapsto> 0, ''error'' \<mapsto> 1, ''system'' \<mapsto> 2],
                    msg_win_width = 81 \<rparr>,
       context_manager =
         \<lparr> contexts = [''Status'' \<mapsto> status_window, ''#foo'' \<mapsto> foo_window],
           active_context_name = Some ''#foo'',
           max_history = 500 \<rparr>,
       connection_info =
         Some \<lparr> nick = ''me'', currently_joined_channels = {''#foo''},
                last_attempted_nick_change = None \<rparr>,
       initial_channels = [],
       is_source_ignored = (\<lambda>source. False),
       strftime_now = ''12:00:05 '',
       last_join_command_target = None,
       events = [] \<rparr>"

text \<open>The reply of a server to \<^verbatim>\<open>JOIN #Foo\<close> from a banned client.\<close>

definition banned_from_Foo :: IRCMessage where
  "banned_from_Foo =
     \<lparr> command = ''474'',
       trailing = Some ''Cannot join channel (+b)'',
       source_nick = None,
       prefix = Some ''irc.example.org'' \<rparr>"

section \<open>Facts about the string operations\<close>

lemma startswith_single: "startswith s [c] \<longleftrightarrow> s \<noteq> [] \<and> hd s = c"
  by (cases s) (simp_all add: startswith_def)

lemma endswith_single: "endswith s [c] \<longleftrightarrow> s \<noteq> [] \<and> last s = c"
  by (cases s rule: rev_cases) (simp_all add: endswith_def)

section \<open>Properties of the context manager and of \<^verbatim>\<open>add_message\<close>\<close>

lemma get_put_context:
  "get_context (put_context cm n c) m =
     (if normalize_context_name m = normalize_context_name n then Some c else get_context cm m)"
  by (simp add: get_context_def put_context_def)

lemma put_context_frame:
  "active_context_name (put_context cm n c) = active_context_name cm"
  "max_history (put_context cm n c) = max_history cm"
  by (simp_all add: put_context_def)

lemma add_message_to_context_found:
  assumes "get_context cm n = Some c"
  shows "snd (add_message_to_context cm n text color) =
           put_context cm n
             (c\<lparr>scrollback := keep_newest (max_history cm) (scrollback c @ [(text, color)])\<rparr>)"
  using assms by (simp add: add_message_to_context_def)

lemma add_lines_to_context_found:
  assumes "get_context cm n = Some c"
  shows "get_context (add_lines_to_context cm n lines color) m =
           (if normalize_context_name m = normalize_context_name n
            then Some (c\<lparr>scrollback :=
                          foldl (\<lambda>sb line_part. keep_newest (max_history cm) (sb @ [(line_part, color)]))
                            (scrollback c) lines\<rparr>)
            else get_context cm m)
       \<and> active_context_name (add_lines_to_context cm n lines color) = active_context_name cm
       \<and> max_history (add_lines_to_context cm n lines color) = max_history cm"
  using assms
proof (induction lines arbitrary: cm c)
  case Nil
  then show ?case by (simp add: add_lines_to_context_def get_context_def)
next
  case (Cons line_part lines)
  let ?c1 = "c\<lparr>scrollback := keep_newest (max_history cm) (scrollback c @ [(line_part, color)])\<rparr>"
  let ?cm1 = "put_context cm n ?c1"
  have step: "add_lines_to_context cm n (line_part # lines) color = add_lines_to_context ?cm1 n lines color"
    using add_message_to_context_found[OF Cons.prems, of line_part color]
    by (simp add: add_lines_to_context_def)
  have found1: "get_context ?cm1 n = Some ?c1" by (simp add: get_put_context)
  show ?case
    unfolding step using Cons.IH[OF found1]
    by (simp add: get_put_context put_context_frame)
qed

lemma bump_scrollback_offset_found:
  assumes "get_context cm n = Some c"
  shows "get_context (bump_scrollback_offset cm n k) m =
           (if normalize_context_name m = normalize_context_name n
            then Some (c\<lparr>scrollback_offset :=
                          (if Some n = active_context_name cm \<and> 0 < scrollback_offset c
                           then scrollback_offset c + int k else scrollback_offset c)\<rparr>)
            else get_context cm m)
       \<and> active_context_name (bump_scrollback_offset cm n k) = active_context_name cm
       \<and> max_history (bump_scrollback_offset cm n k) = max_history cm"
  using assms
  by (auto simp: bump_scrollback_offset_def put_context_def get_context_def)

lemma create_context_missing:
  assumes "get_context cm n = None"
  shows "fst (create_context cm n ty init) = True"
    and "get_context (snd (create_context cm n ty init)) m =
           (if normalize_context_name m = normalize_context_name n
            then Some \<lparr> name = normalize_context_name n, type = ty,
                        join_status = (if ty = ''channel''
                                       then (case init of Some s \<Rightarrow> Some s | None \<Rightarrow> Some NOT_JOINED)
                                       else None),
                        users = [], scrollback = [], scrollback_offset = 0 \<rparr>
            else get_context cm m)"
    and "active_context_name (snd (create_context cm n ty init)) = active_context_name cm"
    and "max_history (snd (create_context cm n ty init)) = max_history cm"
  using assms by (simp_all add: create_context_def get_put_context put_context_frame)

text \<open>
  What a call of \<^verbatim>\<open>add_message\<close> that is not cut short does to the context found
  under the target name: the wrapped lines are appended to its scrollback, and its
  \<^verbatim>\<open>scrollback_offset\<close> grows by their number when the target name is the name of the
  active context and the offset is positive, and stays as it is otherwise.
\<close>

lemma add_message_target_context:
  assumes "ui client = Some u"
    and "\<not> (is_privmsg_or_notice \<and> source_full_ident \<noteq> None \<and> source_full_ident \<noteq> Some []
            \<and> is_source_ignored client (the source_full_ident))"
    and "get_context (context_manager client)
           (target_context_name_of (context_manager client) context_name) = Some c"
  shows "get_context
           (context_manager
              (add_message client text color_attr_or_key prefix_time context_name source_full_ident
                 is_privmsg_or_notice))
           (target_context_name_of (context_manager client) context_name)
         = Some (c\<lparr>scrollback :=
                      foldl (\<lambda>sb line_part.
                               keep_newest (max_history (context_manager client))
                                 (sb @ [(line_part, resolve_color u color_attr_or_key)]))
                        (scrollback c)
                        (message_lines u (strftime_now client) text prefix_time),
                    scrollback_offset :=
                      (if Some (target_context_name_of (context_manager client) context_name)
                            = active_context_name (context_manager client)
                          \<and> 0 < scrollback_offset c
                       then scrollback_offset c
                              + int (length (message_lines u (strftime_now client) text prefix_time))
                       else scrollback_offset c)\<rparr>)"
proof -
  let ?cm = "context_manager client"
  let ?t = "target_context_name_of ?cm context_name"
  let ?lines = "message_lines u (strftime_now client) text prefix_time"
  let ?col = "resolve_color u color_attr_or_key"
  let ?cm2 = "add_lines_to_context ?cm ?t ?lines ?col"
  let ?c2 = "c\<lparr>scrollback :=
                  foldl (\<lambda>sb line_part. keep_newest (max_history ?cm) (sb @ [(line_part, ?col)]))
                    (scrollback c) ?lines\<rparr>"
  have unfold: "context_manager
           (add_message client text color_attr_or_key prefix_time context_name source_full_ident
              is_privmsg_or_notice)
        = bump_scrollback_offset ?cm2 ?t (length ?lines)"
  proof -
    have not_ignored:
      "(is_privmsg_or_notice \<and> source_full_ident \<noteq> None \<and> source_full_ident \<noteq> Some []
          \<and> is_source_ignored client (the source_full_ident)) = False"
      using assms(2) by blast
    show ?thesis
      unfolding add_message_def Let_def not_ignored
      by (simp add: assms(1) assms(3))
  qed
  have lines: "get_context ?cm2 ?t = Some ?c2" "active_context_name ?cm2 = active_context_name ?cm"
    using add_lines_to_context_found[OF assms(3), of ?lines ?col ?t] by simp_all
  show ?thesis
    unfolding unfold using bump_scrollback_offset_found[OF lines(1), of "length ?lines" ?t] lines(2)
    by simp
qed

text \<open>No operation of the context manager that \<^verbatim>\<open>add_message\<close> uses changes the
  active context or the bound of the scrollback.\<close>

lemma add_message_to_context_frame:
  "active_context_name (snd (add_message_to_context cm n text color)) = active_context_name cm"
  "max_history (snd (add_message_to_context cm n text color)) = max_history cm"
  by (simp_all add: add_message_to_context_def put_context_frame split: option.splits)

lemma add_lines_to_context_frame:
  "active_context_name (add_lines_to_context cm n lines color) = active_context_name cm
   \<and> max_history (add_lines_to_context cm n lines color) = max_history cm"
proof (induction lines arbitrary: cm)
  case Nil
  show ?case by (simp add: add_lines_to_context_def)
next
  case (Cons line_part lines)
  have "add_lines_to_context cm n (line_part # lines) color =
        add_lines_to_context (snd (add_message_to_context cm n line_part color)) n lines color"
    by (simp add: add_lines_to_context_def)
  then show ?case
    using Cons.IH[of "snd (add_message_to_context cm n line_part color)"]
    by (simp add: add_message_to_context_frame)
qed

lemma bump_scrollback_offset_frame:
  "active_context_name (bump_scrollback_offset cm n k) = active_context_name cm"
  "max_history (bump_scrollback_offset cm n k) = max_history cm"
  by (simp_all add: bump_scrollback_offset_def put_context_frame split: option.splits)

lemma create_context_frame:
  "active_context_name (snd (create_context cm n ty init)) = active_context_name cm"
  "max_history (snd (create_context cm n ty init)) = max_history cm"
  by (simp_all add: create_context_def put_context_frame split: option.splits)

lemma report_context_error_frame:
  "active_context_name (report_context_error cm n text color) = active_context_name cm"
  "max_history (report_context_error cm n text color) = max_history cm"
  by (simp_all add: report_context_error_def add_message_to_context_frame create_context_frame
        split: option.splits)

lemma ensured_context_frame:
  "active_context_name
     (snd (case get_context cm t of
             Some e \<Rightarrow> (True, cm)
           | None \<Rightarrow> create_context cm t ty init)) = active_context_name cm"
  "max_history
     (snd (case get_context cm t of
             Some e \<Rightarrow> (True, cm)
           | None \<Rightarrow> create_context cm t ty init)) = max_history cm"
  by (simp_all add: create_context_frame split: option.splits)

lemma add_message_shape:
  "\<exists>cm' ev.
     add_message client text col pt cn src priv = client\<lparr>context_manager := cm', events := ev\<rparr>
     \<and> active_context_name cm' = active_context_name (context_manager client)
     \<and> max_history cm' = max_history (context_manager client)"
proof -
  let ?cm = "context_manager client"
  let ?t = "target_context_name_of ?cm cn"
  let ?P = "case get_context ?cm ?t of
              Some e \<Rightarrow> (True, ?cm)
            | None \<Rightarrow> create_context ?cm ?t (fst (new_context_type ?t)) (snd (new_context_type ?t))"
  let ?ignored = "priv \<and> src \<noteq> None \<and> src \<noteq> Some [] \<and> is_source_ignored client (the src)"
  have same: "\<exists>cm' ev. client = client\<lparr>context_manager := cm', events := ev\<rparr>
     \<and> active_context_name cm' = active_context_name ?cm \<and> max_history cm' = max_history ?cm"
    by (rule exI[of _ ?cm], rule exI[of _ "events client"]) simp
  show ?thesis
  proof (cases "ui client")
    case None
    then have "add_message client text col pt cn src priv = client" by (simp add: add_message_def)
    with same show ?thesis by (simp only:)
  next
    case (Some u)
    show ?thesis
    proof (cases ?ignored)
      case True
      then have "add_message client text col pt cn src priv = client"
        using Some by (simp add: add_message_def Let_def)
      with same show ?thesis by (simp only:)
    next
      case False
      then have not_ignored: "?ignored = False" by simp
      obtain ok cm1 where P: "?P = (ok, cm1)" by (cases ?P)
      have cm1: "active_context_name cm1 = active_context_name ?cm" "max_history cm1 = max_history ?cm"
        using ensured_context_frame[of ?cm ?t "fst (new_context_type ?t)" "snd (new_context_type ?t)"] P
        by simp_all
      have unfold: "add_message client text col pt cn src priv =
          (case (ok, cm1) of
             (False, cm) \<Rightarrow>
               client\<lparr>context_manager := report_context_error cm ?t text (resolve_color u col)\<rparr>
           | (True, cm) \<Rightarrow>
               (case get_context cm ?t of
                  None \<Rightarrow> client\<lparr>context_manager := cm\<rparr>
                | Some target_context_obj \<Rightarrow>
                    client
                      \<lparr>context_manager :=
                         bump_scrollback_offset
                           (add_lines_to_context cm ?t
                              (message_lines u (strftime_now client) text pt) (resolve_color u col))
                           ?t (length (message_lines u (strftime_now client) text pt)),
                       events := events client @
                         [Message_added_to_context ?t text
                            (case col of Color_key k \<Rightarrow> k | _ \<Rightarrow> ''system'') src priv]\<rparr>))"
        unfolding add_message_def Let_def not_ignored P[symmetric] by (simp add: Some)
      show ?thesis
      proof (cases ok)
        case False
        have "add_message client text col pt cn src priv =
                client\<lparr>context_manager := report_context_error cm1 ?t text (resolve_color u col),
                       events := events client\<rparr>"
          unfolding unfold using False by simp
        moreover have "active_context_name (report_context_error cm1 ?t text (resolve_color u col))
                         = active_context_name ?cm
                     \<and> max_history (report_context_error cm1 ?t text (resolve_color u col))
                         = max_history ?cm"
          using cm1 by (simp add: report_context_error_frame)
        ultimately show ?thesis by blast
      next
        case True
        show ?thesis
        proof (cases "get_context cm1 ?t")
          case None
          have "add_message client text col pt cn src priv =
                  client\<lparr>context_manager := cm1, events := events client\<rparr>"
            unfolding unfold using True None by simp
          with cm1 show ?thesis by blast
        next
          case (Some target_context_obj)
          have "add_message client text col pt cn src priv =
                  client\<lparr>context_manager :=
                         bump_scrollback_offset
                           (add_lines_to_context cm1 ?t
                              (message_lines u (strftime_now client) text pt) (resolve_color u col))
                           ?t (length (message_lines u (strftime_now client) text pt)),
                       events := events client @
                         [Message_added_to_context ?t text
                            (case col of Color_key k \<Rightarrow> k | _ \<Rightarrow> ''system'') src priv]\<rparr>"
            unfolding unfold using True Some by simp
          moreover have
            "active_context_name
               (bump_scrollback_offset
                  (add_lines_to_context cm1 ?t
                     (message_lines u (strftime_now client) text pt) (resolve_color u col))
                  ?t (length (message_lines u (strftime_now client) text pt)))
               = active_context_name ?cm
             \<and> max_history
               (bump_scrollback_offset
                  (add_lines_to_context cm1 ?t
                     (message_lines u (strftime_now client) text pt) (resolve_color u col))
                  ?t (length (message_lines u (strftime_now client) text pt)))
               = max_history ?cm"
            using cm1 by (simp add: bump_scrollback_offset_frame add_lines_to_context_frame)
          ultimately show ?thesis by blast
        qed
      qed
    qed
  qed
qed

lemma add_message_frame:
  "active_context_name (context_manager (add_message client text col pt cn src priv))
     = active_context_name (context_manager client)"
  "max_history (context_manager (add_message client text col pt cn src priv))
     = max_history (context_manager client)"
  "connection_info (add_message client text col pt cn src priv) = connection_info client"
  "ui (add_message client text col pt cn src priv) = ui client"
  "initial_channels (add_message client text col pt cn src priv) = initial_channels client"
  "last_join_command_target (add_message client text col pt cn src priv)
     = last_join_command_target client"
  using add_message_shape[of client "text" col pt cn src priv] by auto

text \<open>
  The context manager in which a call that is not cut short appends its lines: the
  manager of the client, with the target context created if it was missing. Creating
  a missing context cannot fail, so the branch that reports to the Status window is
  not taken.
\<close>

lemma add_message_not_cut_short:
  assumes "ui client = Some u"
    and "\<not> (priv \<and> src \<noteq> None \<and> src \<noteq> Some [] \<and> is_source_ignored client (the src))"
  shows "context_manager (add_message client text col pt cn src priv) =
           bump_scrollback_offset
             (add_lines_to_context
                (case get_context (context_manager client)
                        (target_context_name_of (context_manager client) cn) of
                   Some e \<Rightarrow> context_manager client
                 | None \<Rightarrow>
                     snd (create_context (context_manager client)
                            (target_context_name_of (context_manager client) cn)
                            (fst (new_context_type (target_context_name_of (context_manager client) cn)))
                            (snd (new_context_type (target_context_name_of (context_manager client) cn)))))
                (target_context_name_of (context_manager client) cn)
                (message_lines u (strftime_now client) text pt) (resolve_color u col))
             (target_context_name_of (context_manager client) cn)
             (length (message_lines u (strftime_now client) text pt))"
proof -
  let ?cm = "context_manager client"
  let ?t = "target_context_name_of ?cm cn"
  have not_ignored:
    "(priv \<and> src \<noteq> None \<and> src \<noteq> Some [] \<and> is_source_ignored client (the src)) = False"
    using assms(2) by blast
  show ?thesis
  proof (cases "get_context ?cm ?t")
    case (Some c)
    then show ?thesis
      unfolding add_message_def Let_def not_ignored by (simp add: assms(1))
  next
    case None
    let ?ty = "fst (new_context_type ?t)" and ?init = "snd (new_context_type ?t)"
    obtain ok cm1 where created: "create_context ?cm ?t ?ty ?init = (ok, cm1)"
      by (cases "create_context ?cm ?t ?ty ?init")
    have ok: "ok" using create_context_missing(1)[OF None, of ?ty ?init] created by simp
    have "normalize_context_name ?t = normalize_context_name ?t" by simp
    then have "get_context (snd (create_context ?cm ?t ?ty ?init)) ?t \<noteq> None"
      using create_context_missing(2)[OF None, of ?ty ?init ?t] by simp
    then obtain c1 where c1: "get_context cm1 ?t = Some c1" using created by auto
    show ?thesis
      unfolding add_message_def Let_def not_ignored
      by (simp add: assms(1) None created ok c1)
  qed
qed

lemma add_message_other_context:
  assumes "normalize_context_name n
             \<noteq> normalize_context_name (target_context_name_of (context_manager client) cn)"
  shows "get_context (context_manager (add_message client text col pt cn src priv)) n
           = get_context (context_manager client) n"
proof -
  let ?cm = "context_manager client"
  let ?t = "target_context_name_of ?cm cn"
  show ?thesis
  proof (cases "ui client")
    case None
    then show ?thesis by (simp add: add_message_def)
  next
    case (Some u)
    show ?thesis
    proof (cases "priv \<and> src \<noteq> None \<and> src \<noteq> Some [] \<and> is_source_ignored client (the src)")
      case True
      then show ?thesis using Some by (simp add: add_message_def Let_def)
    next
      case False
      let ?cm1 = "case get_context ?cm ?t of
                    Some e \<Rightarrow> ?cm
                  | None \<Rightarrow> snd (create_context ?cm ?t (fst (new_context_type ?t))
                                      (snd (new_context_type ?t)))"
      let ?lines = "message_lines u (strftime_now client) text pt"
      have cm1_n: "get_context ?cm1 n = get_context ?cm n"
        using assms by (simp add: create_context_missing(2) split: option.splits)
      have "get_context ?cm1 ?t \<noteq> None"
        by (simp add: create_context_missing(2) split: option.splits)
      then obtain c1 where c1: "get_context ?cm1 ?t = Some c1" by blast
      have lines_n: "get_context (add_lines_to_context ?cm1 ?t ?lines (resolve_color u col)) n
                       = get_context ?cm1 n"
        and lines_t: "get_context (add_lines_to_context ?cm1 ?t ?lines (resolve_color u col)) ?t \<noteq> None"
        using add_lines_to_context_found[OF c1, of ?lines "resolve_color u col" n]
              add_lines_to_context_found[OF c1, of ?lines "resolve_color u col" ?t] assms
        by simp_all
      from lines_t obtain c2
        where c2: "get_context (add_lines_to_context ?cm1 ?t ?lines (resolve_color u col)) ?t = Some c2"
        by blast
      have "get_context
              (bump_scrollback_offset (add_lines_to_context ?cm1 ?t ?lines (resolve_color u col))
                 ?t (length ?lines)) n
            = get_context (add_lines_to_context ?cm1 ?t ?lines (resolve_color u col)) n"
        using bump_scrollback_offset_found[OF c2, of "length ?lines" n] assms by simp
      then show ?thesis
        unfolding add_message_not_cut_short[OF Some False] lines_n cm1_n .
    qed
  qed
qed

text \<open>A context that exists keeps its type and its join status through a call of
  \<^verbatim>\<open>add_message\<close>.\<close>

lemma add_message_keeps_join_status:
  assumes "get_context (context_manager client) n = Some c"
  shows "\<exists>c'. get_context (context_manager (add_message client text col pt cn src priv)) n = Some c'
              \<and> type c' = type c \<and> join_status c' = join_status c"
proof -
  let ?cm = "context_manager client"
  let ?t = "target_context_name_of ?cm cn"
  show ?thesis
  proof (cases "normalize_context_name n = normalize_context_name ?t")
    case False
    from add_message_other_context[OF False, of "text" col pt src priv] assms
    show ?thesis by simp
  next
    case same: True
    then have found: "get_context ?cm ?t = Some c"
      using assms by (simp add: get_context_def)
    have same_lookup: "get_context m n = get_context m ?t" for m
      using same by (simp add: get_context_def)
    show ?thesis
    proof (cases "ui client")
      case None
      then show ?thesis using assms by (simp add: add_message_def)
    next
      case (Some u)
      show ?thesis
      proof (cases "priv \<and> src \<noteq> None \<and> src \<noteq> Some [] \<and> is_source_ignored client (the src)")
        case True
        then show ?thesis using Some assms by (simp add: add_message_def Let_def)
      next
        case False
        from add_message_target_context[OF Some False found, of "text" col pt]
        show ?thesis unfolding same_lookup by simp
      qed
    qed
  qed
qed

text \<open>The spellings \<^verbatim>\<open>#Foo\<close> and \<^verbatim>\<open>#foo\<close> name the same context.\<close>

lemma normalize_examples:
  "normalize_context_name ''#Foo'' = ''#foo''"
  "normalize_context_name ''#foo'' = ''#foo''"
  "normalize_context_name ''Status'' = ''Status''"
  by (simp_all add: normalize_context_name_def is_channel_name_def startswith_def
        rfc1459_lower_char_def lower_char_def)

section \<open>Properties of the join numerics\<close>

lemma set_join_status_found:
  assumes "get_context cm n = Some c"
  shows "get_context (set_join_status cm n s) m =
           (if normalize_context_name m = normalize_context_name n
            then Some (c\<lparr>join_status := Some s\<rparr>)
            else get_context cm m)"
  using assms by (simp add: set_join_status_def get_put_context)

lemma joined_discard_effect:
  "context_manager (joined_discard ch client) = context_manager client"
  "joined_channels (joined_discard ch client) = joined_channels client - {ch}"
  by (simp_all add: joined_discard_def joined_channels_def split: option.splits)

lemma joined_add_effect:
  "context_manager (joined_add ch client) = context_manager client"
  "joined_channels (joined_add ch client) \<subseteq> insert ch (joined_channels client)"
  by (auto simp: joined_add_def joined_channels_def split: option.splits)

lemma joined_channels_add_message:
  "joined_channels (add_message client text col pt cn src priv) = joined_channels client"
  by (simp add: joined_channels_def add_message_frame)

text \<open>
  What the handlers of 403, 471, 473, 474 and 475 do to the joined channels and to the
  contexts that exist: the name given is discarded, and a context keeps its type and
  its join status unless it is the channel context found under the name given, whose
  status becomes \<^verbatim>\<open>JOIN_FAILED\<close>.
\<close>

lemma join_failed_effect:
  assumes "error_color client = Inr color"
  shows "\<exists>client'.
           join_failed client message ch = Inr client'
         \<and> joined_channels client' = joined_channels client - {ch}
         \<and> (\<forall>n c. get_context (context_manager client) n = Some c \<longrightarrow>
               (\<exists>c'. get_context (context_manager client') n = Some c' \<and> type c' = type c
                    \<and> join_status c' =
                        (if normalize_context_name n = normalize_context_name ch \<and> type c = ''channel''
                         then Some JOIN_FAILED else join_status c)))"
proof -
  let ?client1 = "add_message client message (Color_attr color) True (Some ''Status'') None False"
  let ?cm1 = "context_manager ?client1"
  let ?client2 = "case get_context ?cm1 ch of
                    None \<Rightarrow> ?client1
                  | Some failed_join_ctx \<Rightarrow>
                      (if type failed_join_ctx = ''channel''
                       then ?client1\<lparr>context_manager := set_join_status ?cm1 ch JOIN_FAILED\<rparr>
                       else ?client1)"
  have result: "join_failed client message ch = Inr (joined_discard ch ?client2)"
    using assms by (simp add: join_failed_def Let_def)
  have joined2: "joined_channels ?client2 = joined_channels client"
    by (simp add: joined_channels_def add_message_frame split: option.splits)
  have joined: "joined_channels (joined_discard ch ?client2) = joined_channels client - {ch}"
    by (simp only: joined_discard_effect joined2)
  have contexts: "\<exists>c'. get_context (context_manager (joined_discard ch ?client2)) n = Some c'
                     \<and> type c' = type c
                     \<and> join_status c' =
                        (if normalize_context_name n = normalize_context_name ch \<and> type c = ''channel''
                         then Some JOIN_FAILED else join_status c)"
    if found: "get_context (context_manager client) n = Some c" for n c
  proof -
    from add_message_keeps_join_status[OF found, of message "Color_attr color" True "Some ''Status''" None False]
    obtain c1 where c1: "get_context ?cm1 n = Some c1" "type c1 = type c" "join_status c1 = join_status c"
      by blast
    show ?thesis
    proof (cases "normalize_context_name n = normalize_context_name ch")
      case True
      then have at_ch: "get_context ?cm1 ch = Some c1" using c1(1) by (simp add: get_context_def)
      show ?thesis
      proof (cases "type c = ''channel''")
        case channel: True
        then have "get_context (context_manager ?client2) n = Some (c1\<lparr>join_status := Some JOIN_FAILED\<rparr>)"
          using at_ch c1(2) True by (simp add: set_join_status_found)
        then show ?thesis using True channel c1(2) by (simp add: joined_discard_effect)
      next
        case False
        then have "get_context (context_manager ?client2) n = Some c1"
          using at_ch c1 by simp
        then show ?thesis using False c1 by (simp add: joined_discard_effect)
      qed
    next
      case False
      have "get_context (context_manager ?client2) n = Some c1"
        using c1(1) False by (simp add: set_join_status_found split: option.splits)
      then show ?thesis using False c1 by (simp add: joined_discard_effect)
    qed
  qed
  from result joined contexts show ?thesis by blast
qed

lemma client_in_foo_facts:
  "error_color client_in_foo = Inr 1"
  "joined_channels client_in_foo = {''#foo''}"
  "get_context (context_manager client_in_foo) ''#foo'' = Some foo_window"
  "fully_joined client_in_foo ''#foo''"
  by (simp_all add: error_color_def joined_channels_def fully_joined_def get_context_def
        normalize_examples client_in_foo_def foo_window_def)

lemma join_failed_in_foo:
  "map_sum id joined_channels (join_failed client_in_foo message ''#Foo'') = Inr {''#foo''}
   \<and> map_sum id (\<lambda>client. map_option join_status (get_context (context_manager client) ''#foo''))
        (join_failed client_in_foo message ''#Foo'') = Inr (Some (Some JOIN_FAILED))
   \<and> map_sum id joined_are_fully_joined (join_failed client_in_foo message ''#Foo'') = Inr False"
proof -
  from join_failed_effect[OF client_in_foo_facts(1), of message "''#Foo''"]
  obtain client' where result: "join_failed client_in_foo message ''#Foo'' = Inr client'"
    and joined: "joined_channels client' = joined_channels client_in_foo - {''#Foo''}"
    and contexts: "\<And>n c. get_context (context_manager client_in_foo) n = Some c \<Longrightarrow>
               (\<exists>c'. get_context (context_manager client') n = Some c' \<and> type c' = type c
                    \<and> join_status c' =
                        (if normalize_context_name n = normalize_context_name ''#Foo'' \<and> type c = ''channel''
                         then Some JOIN_FAILED else join_status c))"
    by blast
  have joined': "joined_channels client' = {''#foo''}"
    unfolding joined client_in_foo_facts(2) by simp
  from contexts[OF client_in_foo_facts(3)]
  obtain c' where c': "get_context (context_manager client') ''#foo'' = Some c'"
      "join_status c' = Some JOIN_FAILED"
    by (auto simp: normalize_examples foo_window_def)
  have "\<not> fully_joined client' ''#foo''" using c' by (simp add: fully_joined_def)
  then have "\<not> joined_are_fully_joined client'"
    by (simp add: joined_are_fully_joined_def joined')
  with joined' c' show ?thesis unfolding result by simp
qed

text \<open>
  Claim C1, on the code. The client is in \<^verbatim>\<open>#foo\<close>: the name is in
  \<^verbatim>\<open>currently_joined_channels\<close> and its context is a channel with the status
  \<^verbatim>\<open>FULLY_JOINED\<close>, so the invariant holds. The numeric 403, or 474, arrives for
  the channel under the spelling \<^verbatim>\<open>#Foo\<close>. The handler finds the context of
  \<^verbatim>\<open>#foo\<close> under that name and sets its status to \<^verbatim>\<open>JOIN_FAILED\<close>, and it
  discards the name \<^verbatim>\<open>#Foo\<close>, which is not in the set: \<^verbatim>\<open>#foo\<close> stays in
  \<^verbatim>\<open>currently_joined_channels\<close> and the invariant no longer holds.
\<close>

theorem join_failure_other_spelling_breaks_invariant:
  "joined_are_fully_joined client_in_foo
   \<and> map_sum id joined_channels (handle_err_nosuchchannel client_in_foo [''#Foo''])
       = Inr {''#foo''}
   \<and> map_sum id (\<lambda>client. map_option join_status (get_context (context_manager client) ''#foo''))
        (handle_err_nosuchchannel client_in_foo [''#Foo''])
       = Inr (Some (Some JOIN_FAILED))
   \<and> map_sum id joined_are_fully_joined (handle_err_nosuchchannel client_in_foo [''#Foo''])
       = Inr False
   \<and> map_sum id joined_channels
        (handle_err_channel_join_group client_in_foo banned_from_Foo [''#Foo'']
           (Some ''Cannot join channel (+b)''))
       = Inr {''#foo''}
   \<and> map_sum id (\<lambda>client. map_option join_status (get_context (context_manager client) ''#foo''))
        (handle_err_channel_join_group client_in_foo banned_from_Foo [''#Foo'']
           (Some ''Cannot join channel (+b)''))
       = Inr (Some (Some JOIN_FAILED))
   \<and> map_sum id joined_are_fully_joined
        (handle_err_channel_join_group client_in_foo banned_from_Foo [''#Foo'']
           (Some ''Cannot join channel (+b)''))
       = Inr False"
proof -
  have before: "joined_are_fully_joined client_in_foo"
    by (simp add: joined_are_fully_joined_def client_in_foo_facts)
  have nosuch: "handle_err_nosuchchannel client_in_foo [''#Foo''] =
          join_failed client_in_foo (''Channel '' @ ''#Foo'' @ '' does not exist or is invalid.'') ''#Foo''"
    by (simp add: handle_err_nosuchchannel_def first_param_def)
  have code: "py_int (command banned_from_Foo) = Some 474"
    by (simp add: banned_from_Foo_def py_int_def py_strip_def py_isspace_def py_isdigit_def
          digit_value_def decimal_value_def)
  have group: "handle_err_channel_join_group client_in_foo banned_from_Foo [''#Foo'']
           (Some ''Cannot join channel (+b)'') =
          join_failed client_in_foo
            (''Cannot join '' @ ''#Foo'' @ '': '' @ join_error_reason 474 @ ''. ''
               @ ''Cannot join channel (+b)'') ''#Foo''"
    by (simp add: handle_err_channel_join_group_def first_param_def code)
  show ?thesis
    unfolding nosuch group using before join_failed_in_foo by blast
qed

text \<open>
  Off such a second spelling the handlers keep the invariant. For 403 and the group
  471-475 it is enough that no joined channel other than the name given is found under
  the same context as the name given; the handler of 366 keeps the invariant always.
\<close>

lemma add_message_keeps_fully_joined:
  assumes "fully_joined client n"
  shows "fully_joined (add_message client text col pt cn src priv) n"
proof -
  from assms obtain c where c: "get_context (context_manager client) n = Some c"
      "type c = ''channel''" "join_status c = Some FULLY_JOINED"
    by (auto simp: fully_joined_def split: option.splits)
  from add_message_keeps_join_status[OF c(1), of "text" col pt cn src priv] c(2,3)
  show ?thesis by (auto simp: fully_joined_def)
qed

lemma join_failed_keeps_invariant:
  assumes inv: "joined_are_fully_joined client"
    and one_spelling: "\<forall>c \<in> joined_channels client.
           normalize_context_name c = normalize_context_name ch \<longrightarrow> c = ch"
    and result: "join_failed client message ch = Inr client'"
  shows "joined_are_fully_joined client'"
proof -
  from result obtain color where color: "error_color client = Inr color"
    by (cases "error_color client") (simp_all add: join_failed_def)
  from join_failed_effect[OF color, of message ch] result
  have joined: "joined_channels client' = joined_channels client - {ch}"
    and contexts: "\<And>n c. get_context (context_manager client) n = Some c \<Longrightarrow>
               (\<exists>c'. get_context (context_manager client') n = Some c' \<and> type c' = type c
                    \<and> join_status c' =
                        (if normalize_context_name n = normalize_context_name ch \<and> type c = ''channel''
                         then Some JOIN_FAILED else join_status c))"
    by auto
  have "fully_joined client' c" if c: "c \<in> joined_channels client'" for c
  proof -
    from c joined have mem: "c \<in> joined_channels client" and other: "c \<noteq> ch" by simp_all
    from one_spelling mem other
    have differs: "normalize_context_name c \<noteq> normalize_context_name ch" by blast
    from inv mem have "fully_joined client c" by (auto simp: joined_are_fully_joined_def)
    then obtain x where x: "get_context (context_manager client) c = Some x"
        "type x = ''channel''" "join_status x = Some FULLY_JOINED"
      by (auto simp: fully_joined_def split: option.splits)
    from contexts[OF x(1)] differs x(2,3) show ?thesis by (auto simp: fully_joined_def)
  qed
  then show ?thesis by (auto simp: joined_are_fully_joined_def)
qed

lemma handle_err_nosuchchannel_keeps_invariant:
  assumes "joined_are_fully_joined client"
    and "\<forall>c \<in> joined_channels client.
           normalize_context_name c = normalize_context_name (first_param display_params ''channel'')
           \<longrightarrow> c = first_param display_params ''channel''"
    and "handle_err_nosuchchannel client display_params = Inr client'"
  shows "joined_are_fully_joined client'"
  using assms(3) join_failed_keeps_invariant[OF assms(1,2)]
  by (simp add: handle_err_nosuchchannel_def Let_def)

lemma handle_err_channel_join_group_keeps_invariant:
  assumes "joined_are_fully_joined client"
    and "\<forall>c \<in> joined_channels client.
           normalize_context_name c = normalize_context_name (first_param display_params ''channel'')
           \<longrightarrow> c = first_param display_params ''channel''"
    and "handle_err_channel_join_group client parsed_msg display_params trailing_text = Inr client'"
  shows "joined_are_fully_joined client'"
  using assms(3) join_failed_keeps_invariant[OF assms(1,2)]
  by (simp add: handle_err_channel_join_group_def Let_def split: option.splits)

lemma set_active_context_contexts:
  "get_context (snd (set_active_context cm x)) n = get_context cm n"
  by (simp add: set_active_context_def get_context_def split: option.splits)

lemma handle_channel_fully_joined_frame:
  "get_context (context_manager (handle_channel_fully_joined client ch)) n
     = get_context (context_manager client) n"
  "joined_channels (handle_channel_fully_joined client ch) = joined_channels client"
  by (simp_all add: handle_channel_fully_joined_def Let_def set_active_context_contexts
        joined_channels_def split: option.splits)

lemma handle_rpl_endofnames_keeps_invariant:
  assumes inv: "joined_are_fully_joined client"
    and result: "handle_rpl_endofnames client display_params = Inr client'"
  shows "joined_are_fully_joined client'"
proof -
  let ?ch = "first_param display_params ''Unknown Channel''"
  let ?cm = "context_manager client"
  have by_message: "joined_are_fully_joined (add_message client msg color stamp target source is_private)"
    for msg color stamp target source is_private
    using inv add_message_keeps_fully_joined[of client _ msg color stamp target source is_private]
    by (auto simp: joined_are_fully_joined_def joined_channels_add_message)
  have not_found: ?thesis
    if "(case error_color client of
           Inl e \<Rightarrow> Inl e
         | Inr c \<Rightarrow>
             Inr (add_message client (''End of names for '' @ ?ch @ '' (context not found).'')
                    (Color_attr c) True (Some ''Status'') None False)) = Inr client'"
    using that by_message by (auto split: sum.splits)
  show ?thesis
  proof (cases "get_context ?cm ?ch")
    case None
    with result show ?thesis
      by (intro not_found) (simp add: handle_rpl_endofnames_def Let_def)
  next
    case (Some ctx)
    show ?thesis
    proof (cases "type ctx = ''channel''")
      case False
      with result Some show ?thesis
        by (intro not_found) (simp add: handle_rpl_endofnames_def Let_def)
    next
      case channel: True
      show ?thesis
      proof (cases "join_status ctx \<in> {Some SELF_JOIN_RECEIVED, Some JOIN_COMMAND_SENT,
                                        Some PENDING_INITIAL_JOIN}")
        case True
        let ?client1 = "joined_add ?ch (client\<lparr>context_manager := set_join_status ?cm ?ch FULLY_JOINED\<rparr>)"
        have client': "client' = handle_channel_fully_joined ?client1 ?ch"
          using result Some channel True by (simp add: handle_rpl_endofnames_def Let_def)
        have ctx1: "get_context (context_manager ?client1) n =
                      (if normalize_context_name n = normalize_context_name ?ch
                       then Some (ctx\<lparr>join_status := Some FULLY_JOINED\<rparr>)
                       else get_context ?cm n)" for n
          by (simp add: joined_add_effect set_join_status_found[OF Some])
        have joined1: "joined_channels ?client1 \<subseteq> insert ?ch (joined_channels client)"
          using joined_add_effect(2)[of ?ch "client\<lparr>context_manager := set_join_status ?cm ?ch FULLY_JOINED\<rparr>"]
          by (simp add: joined_channels_def)
        have "fully_joined client' c" if c: "c \<in> joined_channels client'" for c
        proof (cases "normalize_context_name c = normalize_context_name ?ch")
          case True
          then show ?thesis
            unfolding client' using channel
            by (simp add: fully_joined_def handle_channel_fully_joined_frame ctx1)
        next
          case False
          then have "c \<noteq> ?ch" by auto
          with c joined1 have "c \<in> joined_channels client"
            unfolding client' by (auto simp: handle_channel_fully_joined_frame)
          with inv have "fully_joined client c" by (auto simp: joined_are_fully_joined_def)
          with False show ?thesis
            unfolding client'
            by (simp add: fully_joined_def handle_channel_fully_joined_frame ctx1)
        qed
        then show ?thesis by (auto simp: joined_are_fully_joined_def)
      next
        case False
        with result Some channel by_message inv show ?thesis
          by (auto simp: handle_rpl_endofnames_def Let_def split: if_splits)
      qed
    qed
  qed
qed

section \<open>Properties of the nick-collision handler\<close>










section \<open>Properties of inbound message routing\<close>

lemma ctcp_payload_of_delimited:
  "ctcp_payload_of (ctcp_delimiter @ payload @ ctcp_delimiter) = payload"
  by (simp add: ctcp_payload_of_def ctcp_delimiter_def butlast_append)

lemma delimited_starts_and_ends:
  "startswith (ctcp_delimiter @ payload @ ctcp_delimiter) ctcp_delimiter"
  "endswith (ctcp_delimiter @ payload @ ctcp_delimiter) ctcp_delimiter"
  by (simp_all add: startswith_single endswith_single ctcp_delimiter_def)

lemma delimited_if_payload_nonempty:
  assumes "startswith t ctcp_delimiter" "endswith t ctcp_delimiter" "ctcp_payload_of t \<noteq> []"
  shows "t = ctcp_delimiter @ ctcp_payload_of t @ ctcp_delimiter"
proof -
  from assms(1) obtain r where t: "t = CHR 0x01 # r"
    unfolding ctcp_delimiter_def startswith_single by (cases t) simp_all
  from assms(3) have r: "r \<noteq> []"
    unfolding t ctcp_payload_of_def by (cases r) simp_all
  from assms(2) have "last t = CHR 0x01"
    unfolding ctcp_delimiter_def endswith_single by simp
  with r have "last r = CHR 0x01" unfolding t by simp
  with r have "butlast r @ [CHR 0x01] = r"
    using append_butlast_last_id[of r] by simp
  then show ?thesis
    unfolding t ctcp_payload_of_def ctcp_delimiter_def by simp
qed

lemma dcc_payload_nonempty: "startswith (py_upper p) ''DCC '' \<Longrightarrow> p \<noteq> []"
  by (cases p) (simp_all add: startswith_def py_upper_def)

lemma delimited_dcc_iff:
  "(\<exists>payload. t = ctcp_delimiter @ payload @ ctcp_delimiter \<and> startswith (py_upper payload) ''DCC '')
   \<longleftrightarrow> (startswith t ctcp_delimiter \<and> endswith t ctcp_delimiter \<and>
        startswith (py_upper (ctcp_payload_of t)) ''DCC '')"
  (is "?spec \<longleftrightarrow> ?code")
proof
  assume ?spec
  then obtain payload where t: "t = ctcp_delimiter @ payload @ ctcp_delimiter"
    and d: "startswith (py_upper payload) ''DCC ''" by blast
  show ?code
    unfolding t ctcp_payload_of_delimited using d delimited_starts_and_ends by blast
next
  assume c: ?code
  then have "ctcp_payload_of t \<noteq> []" using dcc_payload_nonempty by blast
  with c have "t = ctcp_delimiter @ ctcp_payload_of t @ ctcp_delimiter"
    using delimited_if_payload_nonempty by blast
  with c show ?spec by blast
qed

lemma dcc_ctcp_test:
  "is_dcc_ctcp m \<longleftrightarrow>
     command m \<in> set [''PRIVMSG'', ''NOTICE''] \<and>
     startswith (case trailing m of Some t \<Rightarrow> t | None \<Rightarrow> []) ctcp_delimiter \<and>
     endswith (case trailing m of Some t \<Rightarrow> t | None \<Rightarrow> []) ctcp_delimiter \<and>
     startswith (py_upper (ctcp_payload_of (case trailing m of Some t \<Rightarrow> t | None \<Rightarrow> []))) ''DCC ''"
proof (cases "trailing m")
  case None
  then show ?thesis
    by (simp add: is_dcc_ctcp_def startswith_single ctcp_delimiter_def)
next
  case (Some t)
  have "is_dcc_ctcp m \<longleftrightarrow> (command m = ''PRIVMSG'' \<or> command m = ''NOTICE'') \<and>
      (\<exists>payload. t = ctcp_delimiter @ payload @ ctcp_delimiter \<and> startswith (py_upper payload) ''DCC '')"
    unfolding is_dcc_ctcp_def Some by blast
  then show ?thesis
    unfolding delimited_dcc_iff Some by simp
qed

lemma handle_server_message_cases:
  assumes "parse line = Some m"
  shows "handle_server_message parse parse_dcc dcc_manager line =
     (if is_dcc_ctcp m \<and> dcc_manager \<noteq> None
      then Passed_to_dcc_manager
             (handle_incoming_dcc_ctcp (the dcc_manager) parse_dcc
                (case source_nick m of None \<Rightarrow> ''UnknownNick''
                 | Some n \<Rightarrow> if n = [] then ''UnknownNick'' else n)
                (case prefix m of
                   None \<Rightarrow> (case source_nick m of None \<Rightarrow> ''UnknownNick''
                            | Some n \<Rightarrow> if n = [] then ''UnknownNick'' else n) @ ''!UnknownUser@UnknownHost''
                 | Some p \<Rightarrow> if p = []
                     then (case source_nick m of None \<Rightarrow> ''UnknownNick''
                            | Some n \<Rightarrow> if n = [] then ''UnknownNick'' else n) @ ''!UnknownUser@UnknownHost''
                     else p)
                (ctcp_payload_of (case trailing m of Some t \<Rightarrow> t | None \<Rightarrow> [])))
      else Passed_to_router line)"
proof (cases "is_dcc_ctcp m \<and> dcc_manager \<noteq> None")
  case True
  then have "command m \<in> set [''PRIVMSG'', ''NOTICE''] \<and>
     startswith (case trailing m of Some t \<Rightarrow> t | None \<Rightarrow> []) ctcp_delimiter \<and>
     endswith (case trailing m of Some t \<Rightarrow> t | None \<Rightarrow> []) ctcp_delimiter \<and>
     startswith (py_upper (ctcp_payload_of (case trailing m of Some t \<Rightarrow> t | None \<Rightarrow> []))) ''DCC '' \<and>
     dcc_manager \<noteq> None"
    using dcc_ctcp_test[of m] by blast
  then show ?thesis
    using True by (simp add: handle_server_message_def assms Let_def)
next
  case False
  then have "\<not> (command m \<in> set [''PRIVMSG'', ''NOTICE''] \<and>
     startswith (case trailing m of Some t \<Rightarrow> t | None \<Rightarrow> []) ctcp_delimiter \<and>
     endswith (case trailing m of Some t \<Rightarrow> t | None \<Rightarrow> []) ctcp_delimiter \<and>
     startswith (py_upper (ctcp_payload_of (case trailing m of Some t \<Rightarrow> t | None \<Rightarrow> []))) ''DCC '' \<and>
     dcc_manager \<noteq> None)"
    using dcc_ctcp_test[of m] by blast
  then show ?thesis
    using False by (simp add: handle_server_message_def assms Let_def)
qed

text \<open>
  Claim C3, as amended. A PRIVMSG or NOTICE whose trailing is a payload between two
  \<^verbatim>\<open>\x01\<close> and whose payload starts with \<^verbatim>\<open>DCC \<close> up to case is handed to the DCC manager,
  with that payload, whenever the client has a DCC manager, and then never reaches the
  router; the manager passes it on to the CTCP handler only if DCC is enabled, and
  ignores it if DCC is disabled. Every other parsed message goes to the router.
\<close>

theorem dcc_ctcp_goes_to_dcc_manager:
  assumes "parse line = Some m"
  shows "(is_dcc_ctcp m \<and> dcc_manager \<noteq> None \<longrightarrow>
            (\<exists>nick userhost payload.
               trailing m = Some (ctcp_delimiter @ payload @ ctcp_delimiter) \<and>
               handle_server_message parse parse_dcc dcc_manager line =
                 Passed_to_dcc_manager
                   (handle_incoming_dcc_ctcp (the dcc_manager) parse_dcc nick userhost payload)))
       \<and> (\<not> (is_dcc_ctcp m \<and> dcc_manager \<noteq> None) \<longrightarrow>
            handle_server_message parse parse_dcc dcc_manager line = Passed_to_router line)
       \<and> (\<forall>cfg. is_dcc_ctcp m \<and> dcc_manager = Some cfg \<and> \<not> enabled cfg \<longrightarrow>
            handle_server_message parse parse_dcc dcc_manager line =
              Passed_to_dcc_manager Ignored_DCC_disabled)
       \<and> (\<forall>cfg. is_dcc_ctcp m \<and> dcc_manager = Some cfg \<and> enabled cfg \<longrightarrow>
            (\<exists>nick userhost payload.
               trailing m = Some (ctcp_delimiter @ payload @ ctcp_delimiter) \<and>
               handle_server_message parse parse_dcc dcc_manager line =
                 Passed_to_dcc_manager
                   (case parse_dcc payload of
                      None \<Rightarrow> Malformed_DCC_request nick
                    | Some parsed \<Rightarrow> Delegated_to_ctcp_handler nick userhost parsed)))"
proof -
  note cases = handle_server_message_cases[where parse = parse and line = line and m = m
      and parse_dcc = parse_dcc and dcc_manager = dcc_manager, OF assms]
  have payload: "\<exists>payload. trailing m = Some (ctcp_delimiter @ payload @ ctcp_delimiter) \<and>
                   ctcp_payload_of (case trailing m of Some t \<Rightarrow> t | None \<Rightarrow> []) = payload"
    if "is_dcc_ctcp m"
    using that ctcp_payload_of_delimited by (auto simp: is_dcc_ctcp_def)
  have a: "\<exists>nick userhost payload.
               trailing m = Some (ctcp_delimiter @ payload @ ctcp_delimiter) \<and>
               handle_server_message parse parse_dcc dcc_manager line =
                 Passed_to_dcc_manager
                   (handle_incoming_dcc_ctcp (the dcc_manager) parse_dcc nick userhost payload)"
    if "is_dcc_ctcp m" "dcc_manager \<noteq> None"
    using payload[OF that(1)] cases that by auto
  have b: "handle_server_message parse parse_dcc dcc_manager line = Passed_to_router line"
    if "\<not> (is_dcc_ctcp m \<and> dcc_manager \<noteq> None)"
    using cases that by simp
  have c: "handle_server_message parse parse_dcc dcc_manager line =
              Passed_to_dcc_manager Ignored_DCC_disabled"
    if "is_dcc_ctcp m" "dcc_manager = Some cfg" "\<not> enabled cfg" for cfg
    using cases that by (simp add: handle_incoming_dcc_ctcp_def)
  have d: "\<exists>nick userhost payload.
               trailing m = Some (ctcp_delimiter @ payload @ ctcp_delimiter) \<and>
               handle_server_message parse parse_dcc dcc_manager line =
                 Passed_to_dcc_manager
                   (case parse_dcc payload of
                      None \<Rightarrow> Malformed_DCC_request nick
                    | Some parsed \<Rightarrow> Delegated_to_ctcp_handler nick userhost parsed)"
    if "is_dcc_ctcp m" "dcc_manager = Some cfg" "enabled cfg" for cfg
  proof -
    from a[OF that(1)] that(2) obtain nick userhost payload
      where "trailing m = Some (ctcp_delimiter @ payload @ ctcp_delimiter)"
        and "handle_server_message parse parse_dcc dcc_manager line =
                 Passed_to_dcc_manager (handle_incoming_dcc_ctcp cfg parse_dcc nick userhost payload)"
      by auto
    with that(3) show ?thesis
      by (auto simp: handle_incoming_dcc_ctcp_def)
  qed
  from a b c d show ?thesis by blast
qed

lemma dcc_offer_message_is_dcc_ctcp: "is_dcc_ctcp dcc_offer_message"
proof -
  have "startswith (py_upper ''dcc SEND gift.bin 3232235777 49200 2048'') ''DCC ''"
    by (simp add: startswith_def py_upper_def upper_char_def)
  then show ?thesis
    unfolding is_dcc_ctcp_def dcc_offer_message_def by simp
qed

theorem dcc_ctcp_goes_to_dcc_manager_witness:
  "(\<lambda>l. Some dcc_offer_message) ''raw line'' = Some dcc_offer_message
   \<and> is_dcc_ctcp dcc_offer_message
   \<and> handle_server_message (\<lambda>l. Some dcc_offer_message) (\<lambda>p. Some p) (Some example_config) ''raw line''
       \<noteq> Passed_to_router ''raw line''"
proof -
  have parsed: "(\<lambda>l. Some dcc_offer_message) ''raw line'' = Some dcc_offer_message" by simp
  from dcc_ctcp_goes_to_dcc_manager
         [where parse = "\<lambda>l. Some dcc_offer_message" and line = "''raw line''"
            and m = dcc_offer_message and parse_dcc = "\<lambda>p. Some p"
            and dcc_manager = "Some example_config", OF parsed]
       dcc_offer_message_is_dcc_ctcp
  show ?thesis by auto
qed

text \<open>
  The claim as stated fails for a DCC payload while DCC is disabled: the message is not
  treated as normal text by the router; the DCC manager receives it and ignores it.
\<close>

theorem dcc_payload_dropped_when_disabled:
  "spec_goes_to_router (enabled dcc_disabled_config) dcc_offer_message
   \<and> handle_server_message (\<lambda>l. Some dcc_offer_message) (\<lambda>p. Some p) (Some dcc_disabled_config)
        ''raw line''
       = Passed_to_dcc_manager Ignored_DCC_disabled"
proof -
  have off: "\<not> enabled dcc_disabled_config"
    by (simp add: dcc_disabled_config_def)
  have "handle_server_message (\<lambda>l. Some dcc_offer_message) (\<lambda>p. Some p) (Some dcc_disabled_config)
        ''raw line'' = Passed_to_dcc_manager Ignored_DCC_disabled"
    using handle_server_message_cases
            [where parse = "\<lambda>l. Some dcc_offer_message" and line = "''raw line''"
               and m = dcc_offer_message and parse_dcc = "\<lambda>p. Some p"
               and dcc_manager = "Some dcc_disabled_config"]
          dcc_offer_message_is_dcc_ctcp off
    by (simp add: handle_incoming_dcc_ctcp_def)
  with off show ?thesis by (simp add: spec_goes_to_router_def)
qed

section \<open>Properties of active-context switching\<close>

lemma cycle_order:
  "sorted_context_names names =
     filter (\<lambda>n. n \<in> set names) [''Status'']
     @ sort_key py_lower (filter (\<lambda>n. n \<noteq> ''Status'' \<and> n \<noteq> ''DCC'') names)
     @ filter (\<lambda>n. n \<in> set names) [''DCC'']"
  "sorted (map py_lower (sort_key py_lower (filter (\<lambda>n. n \<noteq> ''Status'' \<and> n \<noteq> ''DCC'') names)))"
  by (simp_all add: sorted_context_names_def Let_def)

lemma py_contains_self: "py_contains s s"
  by (cases s) (simp_all add: startswith_def)

text \<open>The third lookup is made only when no name contains the argument, and then it
  finds nothing: a name equal to the argument up to case contains it up to case.\<close>

lemma exact_match_lookup_finds_nothing:
  assumes "filter (\<lambda>name. py_contains (py_lower name) (py_lower direction)) sorted_names = []"
  shows "filter (\<lambda>name. py_lower direction = py_lower name) sorted_names = []"
proof -
  have "\<not> py_lower direction = py_lower name" if "name \<in> set sorted_names" for name
  proof
    assume "py_lower direction = py_lower name"
    then have "py_contains (py_lower name) (py_lower direction)" by (simp add: py_contains_self)
    with that assms show False by (auto simp: filter_empty_conv)
  qed
  then show ?thesis by (simp add: filter_empty_conv)
qed

lemma three_windows_sorted: "sorted_context_names three_windows = [''Status'', ''#chan'', ''#channel'']"
  by (simp add: sorted_context_names_def three_windows_def py_lower_def lower_char_def)

text \<open>
  Claim C4 at the input where it fails. With the windows \<^verbatim>\<open>Status\<close>, \<^verbatim>\<open>#chan\<close> and
  \<^verbatim>\<open>#channel\<close>, the argument \<^verbatim>\<open>#CHAN\<close> is no exact name and no number, it is contained
  up to case in two names, and it equals exactly one name, \<^verbatim>\<open>#chan\<close>, up to case. The
  method reports the ambiguity and does not switch.
\<close>

theorem ambiguous_match_beats_case_insensitive_exact:
  "switch_active_context three_windows (Some ''Status'') ''#CHAN''
     = Error_message (Ambiguous_window_name ''#CHAN'' [''#chan'', ''#channel'']) ''Status''
   \<and> filter (\<lambda>name. py_lower ''#CHAN'' = py_lower name) (sorted_context_names three_windows)
     = [''#chan'']"
proof -
  have lower: "py_lower ''#CHAN'' = ''#chan''" "py_lower ''#chan'' = ''#chan''"
    "py_lower ''#channel'' = ''#channel''" "py_lower ''Status'' = ''status''"
    by (simp_all add: py_lower_def lower_char_def)
  have no_int: "py_int ''#CHAN'' = None"
    by (simp add: py_int_def py_strip_def py_isspace_def py_isdigit_def digit_value_def)
  have pos: "current_position [''Status'', ''#chan'', ''#channel''] (Some ''Status'') = Some (0, ''Status'')"
    by (simp add: current_position_def)
  have res: "resolve_name [''Status'', ''#chan'', ''#channel''] ''Status'' ''#CHAN''
      = Error_message (Ambiguous_window_name ''#CHAN'' [''#chan'', ''#channel'']) ''Status''"
    by (simp add: resolve_name_def no_int lower startswith_def)
  have "switch_active_context three_windows (Some ''Status'') ''#CHAN''
     = Error_message (Ambiguous_window_name ''#CHAN'' [''#chan'', ''#channel'']) ''Status''"
    by (simp add: switch_active_context_def three_windows_sorted pos res)
       (simp add: three_windows_def)
  moreover have "filter (\<lambda>name. py_lower ''#CHAN'' = py_lower name) (sorted_context_names three_windows)
     = [''#chan'']"
    by (simp add: three_windows_sorted lower)
  ultimately show ?thesis by blast
qed

section \<open>Properties of the scrollback offset\<close>

lemma client_in_foo_windows:
  "get_context (context_manager client_in_foo) ''#Foo'' = Some foo_window"
  "get_context (context_manager client_in_foo) ''#foo'' = Some foo_window"
  "get_active_context (context_manager client_in_foo) = Some foo_window"
  by (simp_all add: get_active_context_def get_context_def normalize_examples client_in_foo_def)

lemma topic_message_lines:
  "message_lines \<lparr> colors = [''default'' \<mapsto> 0, ''error'' \<mapsto> 1, ''system'' \<mapsto> 2],
                    msg_win_width = 81 \<rparr>
     ''12:00:05 '' ''Topic for #Foo: hi'' True
   = [''12:00:05 Topic for #Foo: hi'']"
  by (simp add: message_lines_def wrap_message_def startswith_def py_strip_def py_isspace_def)

text \<open>
  Claim C5, on the code. The window of \<^verbatim>\<open>#foo\<close> is the active context and is
  scrolled up by three lines. A message for the channel under the spelling
  \<^verbatim>\<open>#Foo\<close>, as \<^verbatim>\<open>_handle_rpl_topic\<close> passes the name that the server sent, has
  that window as its target context and is wrapped into one line, which is appended to
  the window's scrollback. The offset is still 3 afterwards: the method compares the
  target name as given with \<^verbatim>\<open>active_context_name\<close>.
\<close>

theorem add_message_other_spelling_keeps_offset:
  "get_context (context_manager client_in_foo) ''#Foo''
     = get_active_context (context_manager client_in_foo)
   \<and> get_active_context (context_manager client_in_foo) = Some foo_window
   \<and> scrollback_offset foo_window = 3
   \<and> message_lines (the (ui client_in_foo)) (strftime_now client_in_foo)
        ''Topic for #Foo: hi'' True
       = [''12:00:05 Topic for #Foo: hi'']
   \<and> get_active_context
        (context_manager
           (add_message client_in_foo ''Topic for #Foo: hi'' (Color_attr 2) True (Some ''#Foo'')
              None False))
       = Some (foo_window\<lparr>scrollback := scrollback foo_window @ [(''12:00:05 Topic for #Foo: hi'', 2)],
                          scrollback_offset := 3\<rparr>)"
proof -
  let ?u = "\<lparr> colors = [''default'' \<mapsto> 0, ''error'' \<mapsto> 1, ''system'' \<mapsto> 2],
               msg_win_width = 81 \<rparr>"
  let ?after = "add_message client_in_foo ''Topic for #Foo: hi'' (Color_attr 2) True (Some ''#Foo'')
                  None False"
  have u: "ui client_in_foo = Some ?u" by (simp add: client_in_foo_def)
  have target: "target_context_name_of (context_manager client_in_foo) (Some ''#Foo'') = ''#Foo''"
    by (simp add: target_context_name_of_def)
  have active: "active_context_name (context_manager client_in_foo) = Some ''#foo''"
    by (simp add: client_in_foo_def)
  have clock: "strftime_now client_in_foo = ''12:00:05 ''" by (simp add: client_in_foo_def)
  have history: "max_history (context_manager client_in_foo) = 500"
    by (simp add: client_in_foo_def)
  have offset: "scrollback_offset foo_window = 3" by (simp add: foo_window_def)
  have lines: "message_lines (the (ui client_in_foo)) (strftime_now client_in_foo)
        ''Topic for #Foo: hi'' True = [''12:00:05 Topic for #Foo: hi'']"
    unfolding u clock by (simp add: topic_message_lines)
  have found: "get_context (context_manager client_in_foo)
                 (target_context_name_of (context_manager client_in_foo) (Some ''#Foo''))
               = Some foo_window"
    unfolding target by (rule client_in_foo_windows(1))
  have "get_context (context_manager ?after) ''#Foo''
        = Some (foo_window\<lparr>scrollback := scrollback foo_window @ [(''12:00:05 Topic for #Foo: hi'', 2)],
                          scrollback_offset := 3\<rparr>)"
    using add_message_target_context[OF u _ found, of False None "''Topic for #Foo: hi''"
            "Color_attr 2" True]
    unfolding target clock topic_message_lines active history
    by (simp add: resolve_color_def keep_newest_def foo_window_def)
  moreover have "active_context_name (context_manager ?after) = Some ''#foo''"
    by (simp add: add_message_frame active)
  ultimately have after: "get_active_context (context_manager ?after)
        = Some (foo_window\<lparr>scrollback := scrollback foo_window @ [(''12:00:05 Topic for #Foo: hi'', 2)],
                          scrollback_offset := 3\<rparr>)"
    by (simp add: get_active_context_def get_context_def normalize_examples)
  from client_in_foo_windows(1,3) offset lines after show ?thesis by simp
qed

text \<open>
  The same message under the spelling of the active context's name moves the offset
  from 3 to 4; in general the offset of the target context follows the rule of the
  claim whenever the target name is compared as it is (lemma
  \<open>add_message_target_context\<close>).
\<close>

lemma add_message_same_spelling_moves_offset:
  "get_active_context
     (context_manager
        (add_message client_in_foo ''Topic for #Foo: hi'' (Color_attr 2) True (Some ''#foo'')
           None False))
   = Some (foo_window\<lparr>scrollback := scrollback foo_window @ [(''12:00:05 Topic for #Foo: hi'', 2)],
                      scrollback_offset := 4\<rparr>)"
proof -
  let ?u = "\<lparr> colors = [''default'' \<mapsto> 0, ''error'' \<mapsto> 1, ''system'' \<mapsto> 2],
               msg_win_width = 81 \<rparr>"
  let ?after = "add_message client_in_foo ''Topic for #Foo: hi'' (Color_attr 2) True (Some ''#foo'')
                  None False"
  have u: "ui client_in_foo = Some ?u" by (simp add: client_in_foo_def)
  have target: "target_context_name_of (context_manager client_in_foo) (Some ''#foo'') = ''#foo''"
    by (simp add: target_context_name_of_def)
  have active: "active_context_name (context_manager client_in_foo) = Some ''#foo''"
    by (simp add: client_in_foo_def)
  have clock: "strftime_now client_in_foo = ''12:00:05 ''" by (simp add: client_in_foo_def)
  have history: "max_history (context_manager client_in_foo) = 500"
    by (simp add: client_in_foo_def)
  have found: "get_context (context_manager client_in_foo)
                 (target_context_name_of (context_manager client_in_foo) (Some ''#foo''))
               = Some foo_window"
    unfolding target by (rule client_in_foo_windows(2))
  have "get_context (context_manager ?after) ''#foo''
        = Some (foo_window\<lparr>scrollback := scrollback foo_window @ [(''12:00:05 Topic for #Foo: hi'', 2)],
                          scrollback_offset := 4\<rparr>)"
    using add_message_target_context[OF u _ found, of False None "''Topic for #Foo: hi''"
            "Color_attr 2" True]
    unfolding target clock topic_message_lines active history
    by (simp add: resolve_color_def keep_newest_def foo_window_def)
  moreover have "active_context_name (context_manager ?after) = Some ''#foo''"
    by (simp add: add_message_frame active)
  ultimately show ?thesis
    by (simp add: get_active_context_def)
qed

section \<open>Properties of the cleanup pass\<close>

lemma set_collect_ids_to_remove:
  "set (collect_ids_to_remove now ma d) = {k. \<exists>t. (k, t) \<in> set d \<and> marked_for_cleanup now ma t}"
  by (induction d) (auto split: if_splits)

lemma dict_del_absent: "k \<notin> fst ` set d \<Longrightarrow> dict_del k d = d"
  unfolding dict_del_def by (induction d) auto

lemma fst_remove_collected_Cons:
  "fst (remove_collected (k # ks) d n) =
   fst (remove_collected ks (dict_del k d) (if k \<in> fst ` set d then n + 1 else n))"
  by (simp add: dict_del_absent)

lemma remove_collected_table:
  "fst (remove_collected ks d n) = filter (\<lambda>kv. fst kv \<notin> set ks) d"
proof (induction ks arbitrary: d n)
  case Nil
  show ?case by simp
next
  case (Cons k ks)
  have "fst (remove_collected (k # ks) d n) = filter (\<lambda>kv. fst kv \<notin> set ks) (dict_del k d)"
    unfolding fst_remove_collected_Cons by (rule Cons.IH)
  also have "\<dots> = filter (\<lambda>kv. fst kv \<notin> set (k # ks)) d"
    by (simp add: dict_del_def)
  finally show ?case .
qed

lemma marked_filter_distinct:
  assumes "distinct (map fst d)"
  shows "filter (\<lambda>kv. fst kv \<notin> {k. \<exists>t. (k, t) \<in> set d \<and> P t}) d = filter (\<lambda>kv. \<not> P (snd kv)) d"
proof (rule filter_cong[OF refl])
  fix x assume x: "x \<in> set d"
  obtain k t where kt: "x = (k, t)" by (cases x)
  have uniq: "t' = t" if "(k, t') \<in> set d" for t'
    using assms x kt that by (auto dest: eq_key_imp_eq_value)
  have "(\<exists>t'. (k, t') \<in> set d \<and> P t') = P t"
    using uniq x kt by blast
  then show "(fst x \<notin> {k. \<exists>t. (k, t) \<in> set d \<and> P t}) = (\<not> P (snd x))"
    by (simp add: kt)
qed

lemma marked_is_eligible_off_zero:
  assumes "end_time t \<noteq> Some 0"
  shows "marked_for_cleanup now ma t = spec_eligible_for_cleanup now ma t"
proof (cases "end_time t")
  case None
  then show ?thesis by (simp add: marked_for_cleanup_def spec_eligible_for_cleanup_def)
next
  case (Some e)
  with assms have "e \<noteq> 0" by simp
  with Some show ?thesis by (simp add: marked_for_cleanup_def spec_eligible_for_cleanup_def)
qed

lemma cleanup_table_when_enabled:
  assumes "cleanup_enabled cfg" and "distinct (map fst d)"
  shows "fst (cleanup_finished_transfers cfg now d) =
           filter (\<lambda>kv. \<not> marked_for_cleanup now (transfer_max_age_seconds cfg) (snd kv)) d"
proof -
  let ?ma = "transfer_max_age_seconds cfg"
  have "fst (cleanup_finished_transfers cfg now d) =
        fst (remove_collected (collect_ids_to_remove now ?ma d) d 0)"
    using assms(1) by (simp add: cleanup_finished_transfers_def)
  also have "\<dots> = filter (\<lambda>kv. fst kv \<notin> set (collect_ids_to_remove now ?ma d)) d"
    by (rule remove_collected_table)
  also have "\<dots> = filter (\<lambda>kv. fst kv \<notin> {k. \<exists>t. (k, t) \<in> set d \<and> marked_for_cleanup now ?ma t}) d"
    by (simp only: set_collect_ids_to_remove)
  also have "\<dots> = filter (\<lambda>kv. \<not> marked_for_cleanup now ?ma (snd kv)) d"
    by (rule marked_filter_distinct[OF assms(2)])
  finally show ?thesis .
qed

text \<open>
  Claim C6. A run of the cleanup pass removes from the transfer table exactly the
  transfers whose status is COMPLETED, FAILED, CANCELLED or TIMED_OUT and whose
  \<^verbatim>\<open>end_time\<close> is set and older than \<^verbatim>\<open>transfer_max_age_seconds\<close>; every other
  transfer stays in the table, unmodified and in its place. The table is a dict, so
  its keys are distinct; the pass runs, so cleanup is enabled
  (\<^verbatim>\<open>_scheduled_cleanup_task\<close> calls the method only then); and an \<^verbatim>\<open>end_time\<close> that is set is a reading of
  \<^verbatim>\<open>time.monotonic()\<close>, which is not \<^verbatim>\<open>0.0\<close>.
\<close>

theorem cleanup_removes_exactly_eligible:
  assumes "cleanup_enabled cfg"
    and "distinct (map fst d)"
    and "\<forall>kv \<in> set d. end_time (snd kv) \<noteq> Some 0"
  shows "fst (cleanup_finished_transfers cfg now d) =
           filter (\<lambda>kv. \<not> spec_eligible_for_cleanup now (transfer_max_age_seconds cfg) (snd kv)) d"
proof -
  have "filter (\<lambda>kv. \<not> marked_for_cleanup now (transfer_max_age_seconds cfg) (snd kv)) d =
        filter (\<lambda>kv. \<not> spec_eligible_for_cleanup now (transfer_max_age_seconds cfg) (snd kv)) d"
  proof (rule filter_cong[OF refl])
    fix kv assume "kv \<in> set d"
    with assms(3) have "end_time (snd kv) \<noteq> Some 0" by blast
    then show "(\<not> marked_for_cleanup now (transfer_max_age_seconds cfg) (snd kv)) =
               (\<not> spec_eligible_for_cleanup now (transfer_max_age_seconds cfg) (snd kv))"
      by (simp add: marked_is_eligible_off_zero)
  qed
  with cleanup_table_when_enabled[OF assms(1,2), of now] show ?thesis by simp
qed

text \<open>
  A table with a transfer of every kind, cleaned at time 100 with a maximal age of 10:
  the four terminal transfers that ended more than 10 seconds ago go, whatever their
  terminal status; the terminal transfers that ended 5 and exactly 10 seconds ago, the
  failed transfer without \<^verbatim>\<open>end_time\<close> and the two transfers that are not terminal
  stay as they are.
\<close>

theorem cleanup_removes_exactly_eligible_witness:
  "cleanup_enabled example_config
   \<and> distinct (map fst transfers_before_cleanup)
   \<and> list_all (\<lambda>kv. end_time (snd kv) \<noteq> Some 0) transfers_before_cleanup
   \<and> fst (cleanup_finished_transfers example_config 100 transfers_before_cleanup)
       = [(''c2'', example_transfer\<lparr>status := COMPLETED, end_time := Some 95\<rparr>),
          (''c3'', example_transfer\<lparr>status := COMPLETED, end_time := Some 90\<rparr>),
          (''f2'', example_transfer\<lparr>status := FAILED, end_time := None\<rparr>),
          (''r1'', example_transfer\<lparr>status := TRANSFERRING, end_time := Some 5\<rparr>),
          (''q1'', example_transfer\<lparr>status := QUEUED, end_time := None\<rparr>)]"
  using cleanup_removes_exactly_eligible[of example_config transfers_before_cleanup 100]
  by (simp add: transfers_before_cleanup_def spec_eligible_for_cleanup_def
        example_transfer_def example_config_def)

text \<open>
  The guard of the first loop is the truth value of \<^verbatim>\<open>end_time\<close>, so the hypothesis
  on \<^verbatim>\<open>end_time\<close> cannot be dropped: a terminal transfer with the \<^verbatim>\<open>end_time\<close>
  \<^verbatim>\<open>0.0\<close> would stay. With cleanup disabled the method returns at once.
\<close>

lemma cleanup_zero_end_time_is_falsy:
  "fst (cleanup_finished_transfers example_config 100
          [(''a1'', example_transfer\<lparr>end_time := Some 0\<rparr>)])
     = [(''a1'', example_transfer\<lparr>end_time := Some 0\<rparr>)]"
  by (simp add: cleanup_finished_transfers_def marked_for_cleanup_def example_transfer_def
        example_config_def)

lemma cleanup_disabled_keeps_table:
  "\<not> cleanup_enabled cfg \<Longrightarrow> cleanup_finished_transfers cfg now d = (d, 0)"
  by (simp add: cleanup_finished_transfers_def)

section \<open>Properties of \<^verbatim>\<open>attempt_user_resume\<close>\<close>

lemma lower_char_examples: "lower_char CHR ''M'' = CHR ''m''" "lower_char CHR ''m'' = CHR ''m''"
  by (simp_all add: lower_char_def)

lemma id_matches_eq: "possible_matches_by_id d i = map snd (spec_id_prefix_matches d i)"
  unfolding possible_matches_by_id_def spec_id_prefix_matches_def
  by (rule arg_cong[where f = "map snd"], rule filter_cong) auto

lemma filename_matches_eq: "possible_matches_by_filename d i = map snd (spec_filename_matches d i)"
  unfolding possible_matches_by_filename_def spec_filename_matches_def filter_map
  by (rule arg_cong[where f = "map snd"], rule filter_cong) auto

lemma resume_found_transfer_iff:
  "resume_found_transfer t = (if spec_resumable t then Inr (request_for t)
     else if status t \<notin> {FAILED, CANCELLED, TIMED_OUT}
          then Inl (Not_in_a_failed_or_cancelled_state (original_filename t) (status t))
          else Inl (No_partial_progress (original_filename t)))"
  by (simp add: resume_found_transfer_def spec_resumable_def request_for_def)

lemma spec_selected_transfer_cases:
  "spec_selected_transfer d i =
     (case possible_matches_by_id d i of
        [t] \<Rightarrow> Some t
      | _ # _ # _ \<Rightarrow> None
      | [] \<Rightarrow> (case possible_matches_by_filename d i of [t] \<Rightarrow> Some t | _ \<Rightarrow> None))"
proof -
  obtain xs where xs: "spec_id_prefix_matches d i = xs" by simp
  obtain ys where ys: "spec_filename_matches d i = ys" by simp
  have sel: "spec_selected_transfer d i =
        (if length xs = 1 then Some (snd (hd xs))
         else if length xs > 1 then None
         else if length ys = 1 then Some (snd (hd ys))
         else None)"
    by (simp add: spec_selected_transfer_def Let_def xs ys)
  show ?thesis
  proof (cases xs)
    case Nil
    show ?thesis
    proof (cases ys)
      case ysNil: Nil
      with Nil sel show ?thesis by (simp add: id_matches_eq filename_matches_eq xs ys)
    next
      case (Cons y ys')
      with Nil sel show ?thesis
        by (cases ys') (simp_all add: id_matches_eq filename_matches_eq xs ys)
    qed
  next
    case (Cons x xs')
    with sel show ?thesis
      by (cases xs') (simp_all add: id_matches_eq xs)
  qed
qed

text \<open>
  Claim C7. \<^verbatim>\<open>attempt_user_resume\<close> hands a request to the send manager exactly when
  DCC and resume are enabled, the identifier selects one outgoing SEND transfer (a
  unique id-prefix match, or failing any id-prefix match a unique filename match up to
  case), that transfer is FAILED, CANCELLED or TIMED_OUT, and its byte count lies
  strictly between 0 and its file size; the request is then for that transfer's peer,
  path, filename and size. In every other case the result is one of the failures.
\<close>

theorem attempt_user_resume_initiates_iff:
  "attempt_user_resume cfg d i = Inr req \<longleftrightarrow>
     enabled cfg \<and> resume_enabled cfg \<and>
     (\<exists>t. spec_selected_transfer d i = Some t \<and> spec_resumable t \<and> req = request_for t)"
proof (cases "enabled cfg \<and> resume_enabled cfg")
  case False
  then show ?thesis by (auto simp: attempt_user_resume_def)
next
  case True
  show ?thesis
  proof (cases "possible_matches_by_id d i")
    case Nil
    show ?thesis
    proof (cases "possible_matches_by_filename d i")
      case fNil: Nil
      with Nil True show ?thesis
        by (simp add: attempt_user_resume_def spec_selected_transfer_cases)
    next
      case (Cons t ts)
      with Nil True show ?thesis
        by (cases ts)
           (auto simp: attempt_user_resume_def spec_selected_transfer_cases resume_found_transfer_iff)
    qed
  next
    case (Cons t ts)
    with True show ?thesis
      by (cases ts)
         (auto simp: attempt_user_resume_def spec_selected_transfer_cases resume_found_transfer_iff)
  qed
qed

theorem attempt_user_resume_initiates_iff_witness:
  "attempt_user_resume example_config
      [(''a1b2'', example_transfer), (''c3d4'', example_transfer\<lparr>transfer_type := RECEIVE\<rparr>)]
      ''MOVIE.MKV''
     = Inr (request_for example_transfer)
   \<and> enabled example_config \<and> resume_enabled example_config
   \<and> spec_selected_transfer
        [(''a1b2'', example_transfer), (''c3d4'', example_transfer\<lparr>transfer_type := RECEIVE\<rparr>)]
        ''MOVIE.MKV'' = Some example_transfer
   \<and> spec_resumable example_transfer"
proof -
  have sel: "spec_selected_transfer
        [(''a1b2'', example_transfer), (''c3d4'', example_transfer\<lparr>transfer_type := RECEIVE\<rparr>)]
        ''MOVIE.MKV'' = Some example_transfer"
    by (simp add: spec_selected_transfer_def spec_id_prefix_matches_def spec_filename_matches_def
          startswith_def py_lower_def lower_char_def example_transfer_def)
  have res: "spec_resumable example_transfer"
    by (simp add: spec_resumable_def example_transfer_def)
  have en: "enabled example_config \<and> resume_enabled example_config"
    by (simp add: example_config_def)
  show ?thesis
    using attempt_user_resume_initiates_iff
            [of example_config
                "[(''a1b2'', example_transfer), (''c3d4'', example_transfer\<lparr>transfer_type := RECEIVE\<rparr>)]"
                "''MOVIE.MKV''" "request_for example_transfer"]
          sel res en
    by blast
qed

section \<open>Properties of command dispatch\<close>

lemma nested_call_returns_False:
  "processing_depth st \<ge> 1 \<Longrightarrow> process_user_command env st line = (Returned False, st)"
  by (simp add: process_user_command.simps)

lemma depth_restored:
  "processing_depth (snd (process_user_command env st line)) = processing_depth st"
  "processing_depth (snd (run_handler env' h st')) = processing_depth st'"
proof (induction env st line and env' h st' rule: process_user_command_run_handler.induct)
  case (1 env st line)
  then show ?case
    by (simp add: process_user_command.simps[of env st line] depth_leave
          depth_after_handler depth_after_text_input depth_record_event split: option.splits)
next
  case (2 env st)
  show ?case by simp
next
  case (3 env l rest st)
  obtain x y where xy: "process_user_command env st l = (x, y)"
    by (cases "process_user_command env st l")
  have y: "processing_depth y = processing_depth st" using "3.IH"(1) xy by simp
  show ?case
  proof (cases x)
    case (Returned b)
    with "3.IH"(2)[OF xy[symmetric] Returned] y xy show ?thesis by simp
  next
    case (Propagated e)
    with y xy show ?thesis by simp
  qed
next
  case (4 env c rest st)
  then show ?case by simp
next
  case (5 env x rest st)
  then show ?case by (simp add: depth_record_event)
next
  case (6 env e rest st)
  show ?case by simp
qed

lemma nested_invocation_depth:
  "nested_invocation env st line s l \<Longrightarrow> 0 \<le> processing_depth st \<Longrightarrow> 1 \<le> processing_depth s"
  "handler_invokes env h st' s' l' \<Longrightarrow> 1 \<le> processing_depth st' \<Longrightarrow> 1 \<le> processing_depth s'"
proof (induction rule: nested_invocation_handler_invokes.inducts)
  case (in_text_input st line env s l)
  then show ?case by (simp add: depth_record_event)
next
  case (in_command st line env handler_func s l)
  then show ?case by (simp add: depth_record_event)
next
  case (in_script_command st line env script_handler s l)
  then show ?case by (simp add: depth_record_event)
next
  case (this_step env l rest st)
  then show ?case by simp
next
  case (inside_step env st l s' l' rest)
  then show ?case by simp
next
  case (after_call env st l b st' rest s' l')
  have "processing_depth st' = processing_depth st"
    using depth_restored(1)[of env st l] after_call.hyps(1) by simp
  with after_call show ?case by simp
next
  case (after_switch env rest st c s' l')
  then show ?case by simp
next
  case (after_effect env rest x st s' l')
  then show ?case by (simp add: depth_record_event)
qed

lemma refused_call_invokes_nothing:
  assumes "1 \<le> processing_depth s"
  shows "\<not> nested_invocation env s l s' l'"
proof
  assume "nested_invocation env s l s' l'"
  then show False using assms by (cases rule: nested_invocation.cases) simp_all
qed

text \<open>
  Claim C8. \<^verbatim>\<open>_processing_depth\<close> starts at 0, and whatever the callees do, and
  whether the call returns or an exception leaves it, \<^verbatim>\<open>process_user_command\<close>
  leaves the counter at the value it had before the call; so the counter is never
  below 0. Every invocation made from inside a call, by the callee the call dispatches
  to, then finds the counter at 1 or more, returns \<^verbatim>\<open>False\<close> and dispatches
  nothing: the whole state, the record of dispatches included, is as before the
  invocation, and no invocation happens inside it. In general a call entered with the
  counter at 1 or more returns \<^verbatim>\<open>False\<close> with the state unchanged.
\<close>

theorem process_user_command_depth_counter:
  "processing_depth (snd (process_user_command env st line)) = processing_depth st
   \<and> (0 \<le> processing_depth st \<longrightarrow>
        (\<forall>s l. nested_invocation env st line s l \<longrightarrow>
           1 \<le> processing_depth s
           \<and> process_user_command env s l = (Returned False, s)
           \<and> (\<forall>s' l'. \<not> nested_invocation env s l s' l')))
   \<and> (1 \<le> processing_depth st \<longrightarrow> process_user_command env st line = (Returned False, st))"
proof (intro conjI impI allI)
  show "processing_depth (snd (process_user_command env st line)) = processing_depth st"
    by (rule depth_restored(1))
next
  fix s l
  assume "0 \<le> processing_depth st" and "nested_invocation env st line s l"
  then show "1 \<le> processing_depth s" by (rule nested_invocation_depth(1)[rotated])
next
  fix s l
  assume "0 \<le> processing_depth st" and "nested_invocation env st line s l"
  then have "1 \<le> processing_depth s" by (rule nested_invocation_depth(1)[rotated])
  then show "process_user_command env s l = (Returned False, s)"
    by (rule nested_call_returns_False)
next
  fix s l s' l'
  assume "0 \<le> processing_depth st" and "nested_invocation env st line s l"
  then have "1 \<le> processing_depth s" by (rule nested_invocation_depth(1)[rotated])
  then show "\<not> nested_invocation env s l s' l'" by (rule refused_call_invokes_nothing)
next
  assume "1 \<le> processing_depth st"
  then show "process_user_command env st line = (Returned False, st)"
    by (rule nested_call_returns_False)
qed

lemma dispatch_known_command:
  assumes "processing_depth st \<le> 0" "startswith line ''/''" "split_command line = (cmd, args_str)"
    and "command_map env cmd = Some handler_func"
  shows "process_user_command env st line =
           leave (after_handler (''command /'' @ cmd)
                    (run_handler env (handler_func args_str)
                       (record_event (Command_dispatched cmd args_str)
                          (st\<lparr>processing_depth := processing_depth st + 1\<rparr>))))"
  using assms by (simp add: process_user_command.simps[of env st line])

lemma reentrant_command_example:
  "process_user_command reentrant_commands idle_state ''/again'' =
     (Returned True,
      idle_state\<lparr>dispatched := [Command_dispatched ''again'' [], Effect ''done'']\<rparr>)"
proof -
  let ?s1 = "record_event (Command_dispatched ''again'' [])
               (idle_state\<lparr>processing_depth := processing_depth idle_state + 1\<rparr>)"
  have cmd: "split_command ''/again'' = (''again'', [])"
    by (simp add: split_command_def py_lower_def lower_char_def)
  have handler: "command_map reentrant_commands ''again''
       = Some (\<lambda>args. [Calls_process_user_command ''/again'', Other_effect ''done''])"
    by (simp add: reentrant_commands_def)
  have depth1: "processing_depth ?s1 \<ge> 1"
    by (simp add: record_event_def idle_state_def)
  have inner: "process_user_command reentrant_commands ?s1 ''/again'' = (Returned False, ?s1)"
    using depth1 by (rule nested_call_returns_False)
  have run: "run_handler reentrant_commands
               [Calls_process_user_command ''/again'', Other_effect ''done''] ?s1
             = (Completed, record_event (Effect ''done'') ?s1)"
    by (simp add: inner)
  have "process_user_command reentrant_commands idle_state ''/again'' =
          leave (after_handler (''command /'' @ ''again'')
                   (run_handler reentrant_commands
                      [Calls_process_user_command ''/again'', Other_effect ''done''] ?s1))"
    by (rule dispatch_known_command[OF _ _ cmd handler])
       (simp_all add: idle_state_def startswith_def)
  also have "\<dots> = (Returned True,
      idle_state\<lparr>dispatched := [Command_dispatched ''again'' [], Effect ''done'']\<rparr>)"
    unfolding run by (simp add: after_handler_def leave_def record_event_def idle_state_def)
  finally show ?thesis .
qed

lemma again_invokes_again:
  "nested_invocation reentrant_commands idle_state ''/again''
     \<lparr> processing_depth = 1, window_context_name = Some ''Status'',
       dispatched = [Command_dispatched ''again'' []] \<rparr>
     ''/again''"
proof -
  have cmd: "split_command ''/again'' = (''again'', [])"
    by (simp add: split_command_def py_lower_def lower_char_def)
  have handler: "command_map reentrant_commands (fst (split_command ''/again''))
       = Some (\<lambda>args. [Calls_process_user_command ''/again'', Other_effect ''done''])"
    by (simp add: cmd reentrant_commands_def)
  have running: "record_event (Command_dispatched (fst (split_command ''/again'')) (snd (split_command ''/again'')))
                   (idle_state\<lparr>processing_depth := processing_depth idle_state + 1\<rparr>)
      = \<lparr> processing_depth = 1, window_context_name = Some ''Status'',
          dispatched = [Command_dispatched ''again'' []] \<rparr>"
    by (simp add: cmd record_event_def idle_state_def)
  have "handler_invokes reentrant_commands
          ((\<lambda>args. [Calls_process_user_command ''/again'', Other_effect ''done''])
             (snd (split_command ''/again'')))
          (record_event (Command_dispatched (fst (split_command ''/again'')) (snd (split_command ''/again'')))
             (idle_state\<lparr>processing_depth := processing_depth idle_state + 1\<rparr>))
          \<lparr> processing_depth = 1, window_context_name = Some ''Status'',
            dispatched = [Command_dispatched ''again'' []] \<rparr>
          ''/again''"
    unfolding running by (simp add: this_step)
  with handler show ?thesis
    by (intro in_command[where handler_func =
          "\<lambda>args. [Calls_process_user_command ''/again'', Other_effect ''done'']"])
       (simp_all add: idle_state_def startswith_def)
qed

lemma exit_command_example:
  "process_user_command reentrant_commands idle_state ''/exit'' =
     (Propagated (BaseException ''SystemExit''),
      idle_state\<lparr>dispatched := [Command_dispatched ''exit'' []]\<rparr>)"
proof -
  have cmd: "split_command ''/exit'' = (''exit'', [])"
    by (simp add: split_command_def py_lower_def lower_char_def)
  have handler: "command_map reentrant_commands ''exit''
       = Some (\<lambda>args. [Raises (BaseException ''SystemExit'')])"
    by (simp add: reentrant_commands_def)
  have "process_user_command reentrant_commands idle_state ''/exit'' =
          leave (after_handler (''command /'' @ ''exit'')
                   (run_handler reentrant_commands [Raises (BaseException ''SystemExit'')]
                      (record_event (Command_dispatched ''exit'' [])
                         (idle_state\<lparr>processing_depth := processing_depth idle_state + 1\<rparr>))))"
    by (rule dispatch_known_command[OF _ _ cmd handler])
       (simp_all add: idle_state_def startswith_def)
  also have "\<dots> = (Propagated (BaseException ''SystemExit''),
      idle_state\<lparr>dispatched := [Command_dispatched ''exit'' []]\<rparr>)"
    by (simp add: after_handler_def leave_def record_event_def idle_state_def)
  finally show ?thesis .
qed

text \<open>
  The handler of \<^verbatim>\<open>/again\<close>, dispatched from the idle state, submits \<^verbatim>\<open>/again\<close>
  with the counter at 1: that invocation returns \<^verbatim>\<open>False\<close> and changes nothing,
  and the outer call dispatches one command. The counter is back at 0 after
  \<^verbatim>\<open>/again\<close>, after \<^verbatim>\<open>/crash\<close>, whose handler raises, and after \<^verbatim>\<open>/exit\<close>,
  whose exception leaves the method.
\<close>

theorem process_user_command_depth_counter_witness:
  "0 \<le> processing_depth idle_state
   \<and> nested_invocation reentrant_commands idle_state ''/again''
        \<lparr> processing_depth = 1, window_context_name = Some ''Status'',
          dispatched = [Command_dispatched ''again'' []] \<rparr>
        ''/again''
   \<and> process_user_command reentrant_commands
        \<lparr> processing_depth = 1, window_context_name = Some ''Status'',
          dispatched = [Command_dispatched ''again'' []] \<rparr>
        ''/again''
       = (Returned False,
          \<lparr> processing_depth = 1, window_context_name = Some ''Status'',
            dispatched = [Command_dispatched ''again'' []] \<rparr>)
   \<and> process_user_command reentrant_commands idle_state ''/again''
       = (Returned True,
          idle_state\<lparr>dispatched := [Command_dispatched ''again'' [], Effect ''done'']\<rparr>)
   \<and> processing_depth (snd (process_user_command reentrant_commands idle_state ''/again'')) = 0
   \<and> processing_depth (snd (process_user_command reentrant_commands idle_state ''/crash'')) = 0
   \<and> process_user_command reentrant_commands idle_state ''/exit''
       = (Propagated (BaseException ''SystemExit''),
          idle_state\<lparr>dispatched := [Command_dispatched ''exit'' []]\<rparr>)
   \<and> processing_depth (snd (process_user_command reentrant_commands idle_state ''/exit'')) = 0"
proof -
  let ?running = "\<lparr> processing_depth = 1, window_context_name = Some ''Status'',
                    dispatched = [Command_dispatched ''again'' []] \<rparr>"
  have idle: "processing_depth idle_state = 0" by (simp add: idle_state_def)
  then have f1: "0 \<le> processing_depth idle_state" by simp
  note again = process_user_command_depth_counter[of reentrant_commands idle_state "''/again''"]
  note crash = process_user_command_depth_counter[of reentrant_commands idle_state "''/crash''"]
  note exit = process_user_command_depth_counter[of reentrant_commands idle_state "''/exit''"]
  from again f1 again_invokes_again
  have f3: "process_user_command reentrant_commands ?running ''/again'' = (Returned False, ?running)"
    by blast
  from again have f5: "processing_depth (snd (process_user_command reentrant_commands idle_state ''/again'')) = 0"
    unfolding idle by (rule conjunct1)
  from crash have f6: "processing_depth (snd (process_user_command reentrant_commands idle_state ''/crash'')) = 0"
    unfolding idle by (rule conjunct1)
  from exit have f8: "processing_depth (snd (process_user_command reentrant_commands idle_state ''/exit'')) = 0"
    unfolding idle by (rule conjunct1)
  from f1 again_invokes_again f3 reentrant_command_example f5 f6 exit_command_example f8
  show ?thesis by - (intro conjI, assumption+)
qed

section \<open>Properties of \<^verbatim>\<open>_get_listening_socket\<close>\<close>

lemma try_ports_None:
  "try_ports bind s ps = Inr None \<Longrightarrow> \<forall>p \<in> set ps. bind p \<noteq> Bound"
  by (induction ps arbitrary: s) (auto split: bind_outcome.splits if_splits)

lemma try_ports_all_fail:
  "\<forall>p \<in> set ps. bind p \<noteq> Bound \<and> bind p \<noteq> Socket_not_created \<Longrightarrow> try_ports bind s ps = Inr None"
  by (induction ps arbitrary: s) (auto split: bind_outcome.splits)

lemma try_ports_Some:
  "try_ports bind s ps = Inr (Some p) \<Longrightarrow>
     \<exists>pre post. ps = pre @ p # post \<and> bind p = Bound \<and> (\<forall>q \<in> set pre. bind q \<noteq> Bound)"
proof (induction ps arbitrary: s)
  case Nil
  then show ?case by simp
next
  case (Cons a ps)
  show ?case
  proof (cases "bind a = Bound")
    case True
    with Cons.prems have "p = a" by simp
    with True have "a # ps = [] @ p # ps \<and> bind p = Bound \<and> (\<forall>q \<in> set []. bind q \<noteq> Bound)"
      by simp
    then show ?thesis by blast
  next
    case False
    with Cons.prems obtain s' where "try_ports bind s' ps = Inr (Some p)"
      by (auto split: bind_outcome.splits if_splits)
    from Cons.IH[OF this] obtain pre post
      where "ps = pre @ p # post" "bind p = Bound" "\<forall>q \<in> set pre. bind q \<noteq> Bound"
      by blast
    with False have "a # ps = (a # pre) @ p # post \<and> bind p = Bound \<and> (\<forall>q \<in> set (a # pre). bind q \<noteq> Bound)"
      by simp
    then show ?thesis by blast
  qed
qed

lemma try_ports_raises:
  "try_ports bind s ps = Inl e \<Longrightarrow> \<not> s \<and> ps \<noteq> [] \<and> bind (hd ps) = Socket_not_created"
  by (induction ps arbitrary: s) (auto split: bind_outcome.splits if_splits)

lemma upto_split_at:
  assumes "[a..b] = pre @ p # post"
  shows "a \<le> p \<and> p \<le> b \<and> set pre = {a..<p}"
proof -
  have mem: "p \<in> set [a..b]" using assms by simp
  then have range: "a \<le> p" "p \<le> b" by simp_all
  have "[a..b] = [a..p - 1] @ p # [p + 1..b]"
    using range by (rule upto_split3)
  moreover have "distinct [a..b]" by simp
  ultimately have "pre = [a..p - 1]"
    using assms
    by (metis append_Cons_eq_iff distinct_append distinct.simps(2) in_set_conv_decomp not_distinct_conv_prefix)
  then show ?thesis using range by auto
qed

lemma default_range_head: "[1024..65535] = 1024 # [1025..65535]"
  by (subst upto_rec1) (simp_all del: upto_rec_numeral)

lemma inverted_range_scan:
  "port_range_start cfg > port_range_end cfg \<Longrightarrow>
   get_listening_socket cfg bind = try_ports bind False [1024..65535]"
  by (simp add: get_listening_socket_def del: upto_rec_numeral)

text \<open>
  Claim C10. With \<^verbatim>\<open>port_range_start\<close> greater than \<^verbatim>\<open>port_range_end\<close> the method
  behaves as it does for the range 1024-65535: it returns the first port of that range
  that binds, and it returns \<^verbatim>\<open>None\<close> only if no port of that range binds (and
  certainly if every port fails in \<^verbatim>\<open>bind\<close> or \<^verbatim>\<open>listen\<close>). No result reports the
  inverted range: the only exception that can leave the method is the
  \<^verbatim>\<open>UnboundLocalError\<close> of the first pass, when the socket for port 1024 could not
  even be created.
\<close>

theorem inverted_port_range_uses_default:
  assumes "port_range_start cfg > port_range_end cfg"
  shows "get_listening_socket cfg bind =
           get_listening_socket (cfg\<lparr>port_range_start := 1024, port_range_end := 65535\<rparr>) bind
       \<and> (get_listening_socket cfg bind = Inr None \<longrightarrow> (\<forall>p \<in> {1024..65535}. bind p \<noteq> Bound))
       \<and> ((\<forall>p \<in> {1024..65535}. bind p \<noteq> Bound \<and> bind p \<noteq> Socket_not_created)
            \<longrightarrow> get_listening_socket cfg bind = Inr None)
       \<and> (\<forall>p. get_listening_socket cfg bind = Inr (Some p) \<longrightarrow>
              p \<in> {1024..65535} \<and> bind p = Bound \<and> (\<forall>q \<in> {1024..<p}. bind q \<noteq> Bound))
       \<and> (\<forall>e. get_listening_socket cfg bind = Inl e \<longrightarrow> bind 1024 = Socket_not_created)"
proof -
  let ?ports = "[1024..65535] :: int list"
  have set_ports: "set ?ports = {1024..65535}" by (rule set_upto)
  note scan = inverted_range_scan[OF assms, of bind]
  have same: "get_listening_socket cfg bind =
           get_listening_socket (cfg\<lparr>port_range_start := 1024, port_range_end := 65535\<rparr>) bind"
    unfolding scan by (simp add: get_listening_socket_def del: upto_rec_numeral)
  have none: "\<forall>p \<in> {1024..65535}. bind p \<noteq> Bound" if "get_listening_socket cfg bind = Inr None"
  proof -
    from that have "try_ports bind False ?ports = Inr None" unfolding scan .
    from try_ports_None[OF this] show ?thesis unfolding set_ports .
  qed
  have all_fail: "get_listening_socket cfg bind = Inr None"
    if h: "\<forall>p \<in> {1024..65535}. bind p \<noteq> Bound \<and> bind p \<noteq> Socket_not_created"
  proof -
    from h have "\<forall>p \<in> set ?ports. bind p \<noteq> Bound \<and> bind p \<noteq> Socket_not_created"
      unfolding set_ports .
    from try_ports_all_fail[OF this] show ?thesis unfolding scan .
  qed
  have some: "p \<in> {1024..65535} \<and> bind p = Bound \<and> (\<forall>q \<in> {1024..<p}. bind q \<noteq> Bound)"
    if "get_listening_socket cfg bind = Inr (Some p)" for p
  proof -
    from that have "try_ports bind False ?ports = Inr (Some p)" unfolding scan .
    from try_ports_Some[OF this] obtain pre post
      where split: "?ports = pre @ p # post" and b: "bind p = Bound"
        and pre: "\<forall>q \<in> set pre. bind q \<noteq> Bound"
      by blast
    from upto_split_at[OF split] have "1024 \<le> p" "p \<le> 65535" "set pre = {1024..<p}"
      by blast+
    with pre b show ?thesis by (simp del: upto_rec_numeral)
  qed
  have raises: "bind 1024 = Socket_not_created" if "get_listening_socket cfg bind = Inl e" for e
  proof -
    from that have "try_ports bind False ?ports = Inl e" unfolding scan .
    from try_ports_raises[OF this] have "bind (hd ?ports) = Socket_not_created" by blast
    then show ?thesis unfolding default_range_head by (simp del: upto_rec_numeral)
  qed
  from same none all_fail some raises show ?thesis by blast
qed

theorem inverted_port_range_uses_default_witness:
  "port_range_start inverted_range_config > port_range_end inverted_range_config
   \<and> get_listening_socket inverted_range_config only_1026_free \<noteq> Inr None
   \<and> (\<forall>e. get_listening_socket inverted_range_config only_1026_free \<noteq> Inl e)"
proof -
  have inv: "port_range_start inverted_range_config > port_range_end inverted_range_config"
    by (simp add: inverted_range_config_def example_config_def)
  have free: "only_1026_free 1026 = Bound" "only_1026_free 1024 \<noteq> Socket_not_created"
    by (simp_all add: only_1026_free_def)
  have "(1026::int) \<in> {1024..65535}" by simp
  with free inv inverted_port_range_uses_default[OF inv, of only_1026_free]
  show ?thesis by blast
qed

section \<open>Properties of \<^verbatim>\<open>accept_passive_offer_by_token\<close>\<close>

lemma initiate_passive_receive_started:
  "initiate_passive_receive cfg env peer fname fsize token ip = Passive_started args target msg \<Longrightarrow>
     arg_peer_nick args = peer \<and> arg_filename args = fname \<and> arg_filesize args = fsize \<and>
     arg_peer_ip args = ip \<and> target = peer"
  by (auto simp: initiate_passive_receive_def split: if_splits sum.splits option.splits)

lemma initiate_passive_receive_success:
  assumes "enabled cfg"
    and "validate_download_path env fname fsize = Inr safe_local_path"
    and "get_listening_socket cfg (bind_port env) = Inr (Some port)"
    and "format_dcc_accept_ctcp env fname (local_ip_for_ctcp env) port 0 token = Some msg"
  shows "initiate_passive_receive cfg env peer fname fsize token ip =
           Passive_started
             \<lparr> arg_transfer_id = generate_transfer_id env, arg_peer_nick = peer,
               arg_filename = fname, arg_filesize = fsize,
               arg_local_filepath = safe_local_path, arg_listening_port = port,
               arg_peer_ip = ip \<rparr>
             peer msg"
  using assms by (simp add: initiate_passive_receive_def)

lemma initiate_passive_receive_started_only_if:
  assumes "initiate_passive_receive cfg env peer fname fsize token ip = Passive_started args target msg"
  shows "enabled cfg
       \<and> validate_download_path env fname fsize = Inr (arg_local_filepath args)
       \<and> get_listening_socket cfg (bind_port env) = Inr (Some (arg_listening_port args))
       \<and> format_dcc_accept_ctcp env fname (local_ip_for_ctcp env) (arg_listening_port args) 0 token
           = Some msg"
  using assms
  by (auto simp: initiate_passive_receive_def split: if_splits sum.splits option.splits)

text \<open>
  Claim C9, as amended. For an offer stored under the token and not expired,
  \<^verbatim>\<open>accept_passive_offer_by_token\<close> removes the offer from the table and calls
  \<^verbatim>\<open>initiate_passive_receive\<close> with the nick, filename, size and address stored in the
  offer, whatever filename the user gave: that filename only decides whether a warning
  is logged. A transfer results exactly when that call succeeds, that is when DCC is
  enabled, the download path is valid, a listening port is bound and the CTCP ACCEPT
  message is formatted; the transfer then carries the stored nick, filename, size and
  address. When the call fails there is no transfer, and the offer is gone all the same.
\<close>

theorem accept_passive_offer_removes_then_initiates:
  assumes "offers token = Some details"
    and "\<not> monotonic_now env - offer_timestamp details > passive_mode_token_timeout cfg"
  shows "accept_passive_offer_by_token cfg env offers caller user_filename token
           = (initiate_passive_receive cfg env (offer_nick details) (offer_filename details)
                (offer_filesize details) token (offer_ip_str details),
              offers(token := None),
              py_lower user_filename \<noteq> py_lower (offer_filename details))
       \<and> (enabled cfg
            \<and> validate_download_path env (offer_filename details) (offer_filesize details)
                = Inr safe_local_path
            \<and> get_listening_socket cfg (bind_port env) = Inr (Some port)
            \<and> format_dcc_accept_ctcp env (offer_filename details) (local_ip_for_ctcp env) port 0 token
                = Some accept_message
          \<longrightarrow> fst (accept_passive_offer_by_token cfg env offers caller user_filename token)
                = Passive_started
                    \<lparr> arg_transfer_id = generate_transfer_id env,
                      arg_peer_nick = offer_nick details,
                      arg_filename = offer_filename details,
                      arg_filesize = offer_filesize details,
                      arg_local_filepath = safe_local_path,
                      arg_listening_port = port,
                      arg_peer_ip = offer_ip_str details \<rparr>
                    (offer_nick details) accept_message)
       \<and> (\<forall>args target msg.
            fst (accept_passive_offer_by_token cfg env offers caller user_filename token)
              = Passive_started args target msg \<longrightarrow>
            arg_peer_nick args = offer_nick details \<and> arg_filename args = offer_filename details \<and>
            arg_filesize args = offer_filesize details \<and> arg_peer_ip args = offer_ip_str details \<and>
            target = offer_nick details \<and>
            enabled cfg \<and>
            validate_download_path env (offer_filename details) (offer_filesize details)
              = Inr (arg_local_filepath args) \<and>
            get_listening_socket cfg (bind_port env) = Inr (Some (arg_listening_port args)) \<and>
            format_dcc_accept_ctcp env (offer_filename details) (local_ip_for_ctcp env)
              (arg_listening_port args) 0 token = Some msg)"
proof -
  let ?call = "initiate_passive_receive cfg env (offer_nick details) (offer_filename details)
                (offer_filesize details) token (offer_ip_str details)"
  have found: "get_offer cfg (monotonic_now env) offers token = Some details"
    using assms by (simp add: get_offer_def)
  have whole: "accept_passive_offer_by_token cfg env offers caller user_filename token
           = (?call, offers(token := None),
              py_lower user_filename \<noteq> py_lower (offer_filename details))"
    by (simp add: accept_passive_offer_by_token_def found remove_offer_def Let_def)
  then have result: "fst (accept_passive_offer_by_token cfg env offers caller user_filename token) = ?call"
    by simp
  have success: "?call = Passive_started
                    \<lparr> arg_transfer_id = generate_transfer_id env,
                      arg_peer_nick = offer_nick details,
                      arg_filename = offer_filename details,
                      arg_filesize = offer_filesize details,
                      arg_local_filepath = safe_local_path,
                      arg_listening_port = port,
                      arg_peer_ip = offer_ip_str details \<rparr>
                    (offer_nick details) accept_message"
    if "enabled cfg"
      and "validate_download_path env (offer_filename details) (offer_filesize details) = Inr safe_local_path"
      and "get_listening_socket cfg (bind_port env) = Inr (Some port)"
      and "format_dcc_accept_ctcp env (offer_filename details) (local_ip_for_ctcp env) port 0 token
             = Some accept_message"
    using that by (rule initiate_passive_receive_success)
  have only_if: "arg_peer_nick args = offer_nick details \<and> arg_filename args = offer_filename details \<and>
            arg_filesize args = offer_filesize details \<and> arg_peer_ip args = offer_ip_str details \<and>
            target = offer_nick details \<and>
            enabled cfg \<and>
            validate_download_path env (offer_filename details) (offer_filesize details)
              = Inr (arg_local_filepath args) \<and>
            get_listening_socket cfg (bind_port env) = Inr (Some (arg_listening_port args)) \<and>
            format_dcc_accept_ctcp env (offer_filename details) (local_ip_for_ctcp env)
              (arg_listening_port args) 0 token = Some msg"
    if started: "?call = Passive_started args target msg" for args target msg
    using initiate_passive_receive_started[OF started]
          initiate_passive_receive_started_only_if[OF started]
    by simp
  show ?thesis
    unfolding result
    apply (intro conjI)
      apply (rule whole)
     apply (intro impI, elim conjE, erule (3) success)
    apply (intro allI impI, erule only_if)
    done
qed

lemma example_listening_socket:
  "get_listening_socket example_config only_1026_free = Inr (Some 1026)"
proof -
  have l1: "[1024..65535] = 1024 # [1025..65535]"
    by (subst upto_rec1) (simp_all del: upto_rec_numeral)
  have l2: "[1025..65535] = 1025 # [1026..65535]"
    by (subst upto_rec1) (simp_all del: upto_rec_numeral)
  have l3: "[1026..65535] = 1026 # [1027..65535]"
    by (subst upto_rec1) (simp_all del: upto_rec_numeral)
  have "get_listening_socket example_config only_1026_free = try_ports only_1026_free False [1024..65535]"
    by (simp add: get_listening_socket_def example_config_def del: upto_rec_numeral)
  also have "\<dots> = Inr (Some 1026)"
    unfolding l1 l2 l3 by (simp add: only_1026_free_def del: upto_rec_numeral)
  finally show ?thesis .
qed

theorem accept_passive_offer_removes_then_initiates_witness:
  "[''tok42'' \<mapsto> example_offer] ''tok42'' = Some example_offer
   \<and> \<not> monotonic_now example_environment - offer_timestamp example_offer
        > passive_mode_token_timeout example_config
   \<and> py_lower ''Other.BIN'' \<noteq> py_lower (offer_filename example_offer)
   \<and> accept_passive_offer_by_token example_config example_environment
        [''tok42'' \<mapsto> example_offer] ''me'' ''Other.BIN'' ''tok42''
     = (Passive_started
          \<lparr> arg_transfer_id = ''id-1'', arg_peer_nick = ''carol'', arg_filename = ''gift.bin'',
            arg_filesize = 2048, arg_local_filepath = ''/downloads/gift.bin'',
            arg_listening_port = 1026, arg_peer_ip = Some ''192.168.1.7'' \<rparr>
          ''carol'' ''DCC ACCEPT gift.bin tok42'',
        Map.empty, True)"
proof -
  have stored: "[''tok42'' \<mapsto> example_offer] ''tok42'' = Some example_offer" by simp
  have fresh: "\<not> monotonic_now example_environment - offer_timestamp example_offer
        > passive_mode_token_timeout example_config"
    by (simp add: example_environment_def example_offer_def example_config_def)
  have differs: "py_lower ''Other.BIN'' \<noteq> py_lower (offer_filename example_offer)"
    by (simp add: py_lower_def lower_char_def example_offer_def)
  have started: "initiate_passive_receive example_config example_environment
           (offer_nick example_offer) (offer_filename example_offer)
           (offer_filesize example_offer) ''tok42'' (offer_ip_str example_offer)
        = Passive_started
          \<lparr> arg_transfer_id = ''id-1'', arg_peer_nick = ''carol'', arg_filename = ''gift.bin'',
            arg_filesize = 2048, arg_local_filepath = ''/downloads/gift.bin'',
            arg_listening_port = 1026, arg_peer_ip = Some ''192.168.1.7'' \<rparr>
          ''carol'' ''DCC ACCEPT gift.bin tok42''"
    unfolding initiate_passive_receive_def
    by (simp add: example_environment_def example_listening_socket example_offer_def)
       (simp add: example_config_def)
  from accept_passive_offer_removes_then_initiates
         [where offers = "[''tok42'' \<mapsto> example_offer]" and token = "''tok42''"
            and details = example_offer and env = example_environment and cfg = example_config
            and caller = "''me''" and user_filename = "''Other.BIN''", OF stored fresh]
  have "accept_passive_offer_by_token example_config example_environment
          [''tok42'' \<mapsto> example_offer] ''me'' ''Other.BIN'' ''tok42''
       = (initiate_passive_receive example_config example_environment
           (offer_nick example_offer) (offer_filename example_offer)
           (offer_filesize example_offer) ''tok42'' (offer_ip_str example_offer),
          [''tok42'' \<mapsto> example_offer](''tok42'' := None),
          py_lower ''Other.BIN'' \<noteq> py_lower (offer_filename example_offer))"
    by (rule conjunct1)
  with started stored fresh differs show ?thesis
    by simp
qed

text \<open>
  The claim as stated fails when no port of the range can be bound: the offer is stored
  and not expired and DCC is enabled, the offer is removed from the table, and no
  transfer results.
\<close>

lemma no_listening_socket_when_crowded:
  "get_listening_socket example_config no_port_free = Inr None"
proof -
  have "try_ports no_port_free False [1024..65535] = Inr None"
    by (rule try_ports_all_fail) (simp add: no_port_free_def del: upto_rec_numeral)
  then show ?thesis
    by (simp add: get_listening_socket_def example_config_def del: upto_rec_numeral)
qed

theorem accept_passive_offer_can_fail_after_removal:
  "[''tok42'' \<mapsto> example_offer] ''tok42'' = Some example_offer
   \<and> \<not> monotonic_now crowded_environment - offer_timestamp example_offer
        > passive_mode_token_timeout example_config
   \<and> enabled example_config
   \<and> accept_passive_offer_by_token example_config crowded_environment
        [''tok42'' \<mapsto> example_offer] ''me'' ''gift.bin'' ''tok42''
     = (Passive_failure Failure_no_listening_socket, Map.empty, False)"
proof -
  have found: "get_offer example_config (monotonic_now crowded_environment)
                 [''tok42'' \<mapsto> example_offer] ''tok42'' = Some example_offer"
    by (simp add: get_offer_def crowded_environment_def example_environment_def
          example_offer_def example_config_def)
  have failed: "initiate_passive_receive example_config crowded_environment
           (offer_nick example_offer) (offer_filename example_offer)
           (offer_filesize example_offer) ''tok42'' (offer_ip_str example_offer)
        = Passive_failure Failure_no_listening_socket"
    unfolding initiate_passive_receive_def
    by (simp add: crowded_environment_def example_environment_def
          no_listening_socket_when_crowded)
       (simp add: example_config_def)
  have same_name: "py_lower ''gift.bin'' = py_lower (offer_filename example_offer)"
    by (simp add: example_offer_def)
  have "accept_passive_offer_by_token example_config crowded_environment
        [''tok42'' \<mapsto> example_offer] ''me'' ''gift.bin'' ''tok42''
     = (Passive_failure Failure_no_listening_socket, Map.empty, False)"
    unfolding accept_passive_offer_by_token_def found
    by (simp add: remove_offer_def Let_def failed same_name)
  then show ?thesis
    by (simp add: crowded_environment_def example_environment_def example_offer_def
          example_config_def)
qed

end
